theory Spec2Isabelle
  imports Complex_Main "HOL-Library.Word"
begin

section \<open>The text-label node (text\_label\_node.py)\<close>

text \<open>
  The node draws a half-transparent rounded box and an opaque text on every image of a
  batch.  Python integers are modelled as \<open>int\<close>, Python floats as \<open>rat\<close> (the
  only float operations of the source are products with 255, halves and a division by
  255, all of them small), 8-bit pixels as \<open>8 word\<close>.  The primitives of the imaging
  library (font files, text measurement, rasterisers, compositor) are not part of the
  repository: they are the fields of a record that the node's functions take as a
  parameter.
\<close>

subsection \<open>Python helpers\<close>

text \<open>Python's \<open>int()\<close> on a float truncates toward zero.\<close>

definition py_int :: "rat \<Rightarrow> int" where
  "py_int q = (if 0 \<le> q then \<lfloor>q\<rfloor> else \<lceil>q\<rceil>)"

datatype py_exc = ValueError | TypeError | RuntimeError | IndexError | OSError

subsection \<open>Colours\<close>

text \<open>
  Strings are byte strings here: the colour strings of the node are ASCII.
  \<open>str.strip()\<close> removes the ASCII whitespace of Python on both sides,
  \<open>lstrip("#")\<close> every leading \<open>#\<close>.
\<close>

definition is_space :: "char \<Rightarrow> bool" where
  "is_space c \<longleftrightarrow> c \<in> set [CHR 0x09, CHR 0x0A, CHR 0x0B, CHR 0x0C, CHR 0x0D,
                            CHR 0x1C, CHR 0x1D, CHR 0x1E, CHR 0x1F, CHR 0x20]"

definition strip_by :: "(char \<Rightarrow> bool) \<Rightarrow> string \<Rightarrow> string" where
  "strip_by P s = rev (dropWhile P (rev (dropWhile P s)))"

definition strip :: "string \<Rightarrow> string" where
  "strip s = strip_by is_space s"

definition lstrip :: "char \<Rightarrow> string \<Rightarrow> string" where
  "lstrip c s = dropWhile (\<lambda>d. d = c) s"

text \<open>
  \<open>int(s, 16)\<close>: whitespace around (of an ASCII string \<open>int\<close> skips the six
  characters of the C locale only, not the separators \<open>0x1C\<close> to \<open>0x1F\<close> that
  \<open>str.strip\<close> removes), an optional sign, an optional \<open>0x\<close> prefix, then
  hexadecimal digits, single underscores allowed between digits and after the prefix;
  anything else raises \<open>ValueError\<close>.
\<close>

definition is_c_space :: "char \<Rightarrow> bool" where
  "is_c_space c \<longleftrightarrow> c \<in> set [CHR 0x09, CHR 0x0A, CHR 0x0B, CHR 0x0C, CHR 0x0D, CHR 0x20]"

definition hex_val :: "char \<Rightarrow> int option" where
  "hex_val c =
     (let n = (of_char c :: nat) in
      if 48 \<le> n \<and> n \<le> 57 then Some (int n - 48)
      else if 97 \<le> n \<and> n \<le> 102 then Some (int n - 87)
      else if 65 \<le> n \<and> n \<le> 70 then Some (int n - 55)
      else None)"

fun hex_body :: "string \<Rightarrow> int \<Rightarrow> int option" where
  "hex_body [] acc = Some acc"
| "hex_body (c # cs) acc =
     (if c = CHR ''_'' then
        (case cs of [] \<Rightarrow> None
         | d # ds \<Rightarrow> (case hex_val d of None \<Rightarrow> None
                      | Some v \<Rightarrow> hex_body ds (acc * 16 + v)))
      else (case hex_val c of None \<Rightarrow> None
            | Some v \<Rightarrow> hex_body cs (acc * 16 + v)))"

definition hex_digits :: "string \<Rightarrow> int option" where
  "hex_digits s =
     (case s of [] \<Rightarrow> None
      | c # cs \<Rightarrow> (case hex_val c of None \<Rightarrow> None | Some v \<Rightarrow> hex_body cs v))"

definition int16 :: "string \<Rightarrow> py_exc + int" where
  "int16 s =
     (let u = strip_by is_c_space s;
          (sgn, v) = (case u of [] \<Rightarrow> (1, u)
                      | c # r \<Rightarrow> if c = CHR ''+'' then (1, r)
                                else if c = CHR ''-'' then (- 1, r) else (1, u));
          w = (if take 2 v = ''0x'' \<or> take 2 v = ''0X''
               then (case drop 2 v of [] \<Rightarrow> []
                     | c # r \<Rightarrow> if c = CHR ''_'' then r else c # r)
               else v)
      in case hex_digits w of None \<Rightarrow> Inl ValueError | Some n \<Rightarrow> Inr (sgn * n))"

text \<open>
  \<open>_rgba(hexstr, alpha)\<close>: three digits are doubled, six are read in pairs, any other
  length is white; the alpha is \<open>int(alpha * 255)\<close> clamped to 0..255.
\<close>

definition rgba :: "string \<Rightarrow> rat \<Rightarrow> py_exc + (int \<times> int \<times> int \<times> int)" where
  "rgba hexstr alpha =
     (let s = lstrip (CHR ''#'') (strip hexstr);
          a = max 0 (min 255 (py_int (alpha * 255)))
      in if length s = 3 then
           (case int16 [s ! 0, s ! 0] of Inl e \<Rightarrow> Inl e | Inr r \<Rightarrow>
            case int16 [s ! 1, s ! 1] of Inl e \<Rightarrow> Inl e | Inr g \<Rightarrow>
            case int16 [s ! 2, s ! 2] of Inl e \<Rightarrow> Inl e | Inr b \<Rightarrow> Inr (r, g, b, a))
         else if length s = 6 then
           (case int16 (take 2 s) of Inl e \<Rightarrow> Inl e | Inr r \<Rightarrow>
            case int16 (take 2 (drop 2 s)) of Inl e \<Rightarrow> Inl e | Inr g \<Rightarrow>
            case int16 (take 2 (drop 4 s)) of Inl e \<Rightarrow> Inl e | Inr b \<Rightarrow> Inr (r, g, b, a))
         else Inr (255, 255, 255, a))"

text \<open>The two colours of a scheme, text colour first (lines 107 to 110).\<close>

definition scheme_colours :: "string \<Rightarrow> string \<times> string" where
  "scheme_colours color_scheme =
     (if color_scheme = ''white_on_black'' then (''#FFFFFF'', ''#000000'')
      else (''#000000'', ''#FFFFFF''))"

subsection \<open>Tensors and images\<close>

text \<open>
  A tensor is its shape and its values by index; \<open>dim\<close>, \<open>unsqueeze(0)\<close>, \<open>shape[0]\<close>
  and \<open>image[i]\<close> are the operations \<open>add_label\<close> uses.  Only the values at indices
  inside the shape mean anything.
\<close>

record 'a tensor =
  shape :: "nat list"
  elem :: "nat list \<Rightarrow> 'a"

definition dim :: "'a tensor \<Rightarrow> nat" where
  "dim t = length (shape t)"

definition unsqueeze0 :: "'a tensor \<Rightarrow> 'a tensor" where
  "unsqueeze0 t = \<lparr> shape = 1 # shape t, elem = (\<lambda>ix. elem t (tl ix)) \<rparr>"

definition select :: "'a tensor \<Rightarrow> nat \<Rightarrow> 'a tensor" where
  "select t i = \<lparr> shape = tl (shape t), elem = (\<lambda>ix. elem t (i # ix)) \<rparr>"

text \<open>
  \<open>torch.stack(out, dim=0)\<close> raises on an empty list and on tensors of different
  shapes.
\<close>

definition stack :: "rat tensor list \<Rightarrow> py_exc + rat tensor" where
  "stack ts =
     (case ts of [] \<Rightarrow> Inl RuntimeError
      | t0 # _ \<Rightarrow>
          if list_all (\<lambda>t. shape t = shape t0) ts
          then Inr \<lparr> shape = length ts # shape t0,
                     elem = (\<lambda>ix. case ix of [] \<Rightarrow> 0
                                 | i # r \<Rightarrow> if i < length ts then elem (ts ! i) r else 0) \<rparr>
          else Inl RuntimeError)"

type_synonym u8 = "8 word"
type_synonym rgba_px = "u8 \<times> u8 \<times> u8 \<times> u8"

text \<open>An image of the imaging library in mode RGBA: its size and its pixels \<open>px x y\<close>.\<close>

record pil_image =
  width :: nat
  height :: nat
  px :: "nat \<Rightarrow> nat \<Rightarrow> rgba_px"

text \<open>
  \<open>_tensor_to_pil\<close>, value by value: clamp to \<open>[0, 1]\<close>, times 255, round (numpy rounds
  halves to the even neighbour), cast to an unsigned byte.  The product is exact here,
  where the source rounds it to a 32-bit float before it rounds to an integer, and a
  value that is not a number has no counterpart among the rationals.
\<close>

definition clamp01 :: "rat \<Rightarrow> rat" where
  "clamp01 v = min 1 (max 0 v)"

definition round_half_even :: "rat \<Rightarrow> int" where
  "round_half_even q =
     (let f = \<lfloor>q\<rfloor>; d = q - of_int f
      in if d < 1 / 2 then f
         else if 1 / 2 < d then f + 1
         else if even f then f else f + 1)"

definition to_u8 :: "rat \<Rightarrow> u8" where
  "to_u8 v = word_of_int (round_half_even (clamp01 v * 255))"

definition tensor_to_array :: "rat tensor \<Rightarrow> u8 tensor" where
  "tensor_to_array t = \<lparr> shape = shape t, elem = (\<lambda>ix. to_u8 (elem t ix)) \<rparr>"

text \<open>
  \<open>Image.fromarray(arr).convert("RGBA")\<close>: a byte array of shape \<open>[H, W]\<close> is a grey
  image, \<open>[H, W, 2]\<close> grey with alpha, \<open>[H, W, 3]\<close> RGB and \<open>[H, W, 4]\<close> RGBA; an
  array of one dimension \<open>[H]\<close> is a grey image one pixel wide; an array of no
  dimension raises \<open>IndexError\<close> (the size is read from the shape) and every other
  shape \<open>TypeError\<close>.  The conversion to RGBA repeats a grey value on the three
  colours and makes a pixel without alpha opaque.
\<close>

definition fromarray_rgba :: "u8 tensor \<Rightarrow> py_exc + pil_image" where
  "fromarray_rgba a =
     (case shape a of
        [] \<Rightarrow> Inl IndexError
      | [h] \<Rightarrow> Inr \<lparr> width = 1, height = h,
                      px = (\<lambda>x y. (elem a [y], elem a [y], elem a [y], 255)) \<rparr>
      | [h, w] \<Rightarrow> Inr \<lparr> width = w, height = h,
                         px = (\<lambda>x y. (elem a [y, x], elem a [y, x], elem a [y, x], 255)) \<rparr>
      | [h, w, c] \<Rightarrow>
          if c = 2 then Inr \<lparr> width = w, height = h,
                         px = (\<lambda>x y. (elem a [y, x, 0], elem a [y, x, 0], elem a [y, x, 0], elem a [y, x, 1])) \<rparr>
          else if c = 3 then Inr \<lparr> width = w, height = h,
                         px = (\<lambda>x y. (elem a [y, x, 0], elem a [y, x, 1], elem a [y, x, 2], 255)) \<rparr>
          else if c = 4 then Inr \<lparr> width = w, height = h,
                         px = (\<lambda>x y. (elem a [y, x, 0], elem a [y, x, 1], elem a [y, x, 2], elem a [y, x, 3])) \<rparr>
          else Inl TypeError
      | _ \<Rightarrow> Inl TypeError)"

text \<open>
  \<open>_pil_to_tensor(base.convert("RGB"))\<close>: the alpha is dropped and every byte is divided
  by 255; the result has the shape \<open>[H, W, 3]\<close>.
\<close>

definition channel :: "rgba_px \<Rightarrow> nat \<Rightarrow> u8" where
  "channel p c = (case p of (r, g, b, a) \<Rightarrow>
                    if c = 0 then r else if c = 1 then g else if c = 2 then b else a)"

definition pil_to_tensor :: "pil_image \<Rightarrow> rat tensor" where
  "pil_to_tensor im =
     \<lparr> shape = [height im, width im, 3],
       elem = (\<lambda>ix. case ix of
                    [y, x, c] \<Rightarrow> of_nat (unat (channel (px im x y) c)) / 255
                  | _ \<Rightarrow> 0) \<rparr>"

subsection \<open>Box placement\<close>

text \<open>
  \<open>_place_xy(w, h, bw, bh, placement, edge)\<close>: an if/elif chain on the placement
  string; every string that is none of the four corners takes the last branch.  The
  floor division \<open>//\<close> of Python is \<open>div\<close> on \<open>int\<close>; the final \<open>int(x), int(y)\<close>
  is the identity on integers.
\<close>

definition place_xy :: "int \<Rightarrow> int \<Rightarrow> int \<Rightarrow> int \<Rightarrow> string \<Rightarrow> int \<Rightarrow> int \<times> int" where
  "place_xy w h bw bh placement edge =
     (if placement = ''top_left'' then (edge, edge)
      else if placement = ''top_right'' then (w - bw - edge, edge)
      else if placement = ''bottom_left'' then (edge, h - bh - edge)
      else if placement = ''bottom_right'' then (w - bw - edge, h - bh - edge)
      else ((w - bw) div 2, (h - bh) div 2))"

subsection \<open>Layout of one label\<close>

text \<open>
  The numbers that \<open>add_label\<close> computes for one image (lines 118 to 137), from the
  image size, the measured text box \<open>(l, t, r, b)\<close> and the options:
  \<open>box_w, box_h\<close>, the corner \<open>(x, y)\<close>, the clamped radius \<open>rx\<close>, the rectangle
  handed to \<open>rounded_rectangle\<close> and the origin \<open>(tx, ty)\<close> handed to \<open>draw.text\<close>.
\<close>

type_synonym bbox = "int \<times> int \<times> int \<times> int"

record layout =
  box_w :: int
  box_h :: int
  box_x :: int
  box_y :: int
  radius :: int
  rect :: bbox
  text_x :: int
  text_y :: int

definition clamp_radius :: "int \<Rightarrow> int \<Rightarrow> int \<Rightarrow> int" where
  "clamp_radius corner_radius bw bh = max 0 (min corner_radius (min bw bh div 2))"

definition label_layout :: "int \<Rightarrow> int \<Rightarrow> bbox \<Rightarrow> int \<Rightarrow> string \<Rightarrow> int \<Rightarrow> int \<Rightarrow> layout" where
  "label_layout w h bb padding placement edge_offset corner_radius =
     (case bb of (l, t, r, b) \<Rightarrow>
        let tw = r - l; th = b - t;
            pad = padding;
            bw = tw + pad * 2; bh = th + pad * 2;
            (x, y) = place_xy w h bw bh placement edge_offset;
            rx = clamp_radius corner_radius bw bh;
            cx = of_int x + of_int bw / (2 :: rat);
            cy = of_int y + of_int bh / (2 :: rat);
            tx = py_int (cx - of_int tw / 2 - of_int l);
            ty = py_int (cy - of_int th / 2 - of_int t)
        in \<lparr> box_w = bw, box_h = bh, box_x = x, box_y = y, radius = rx,
             rect = (x, y, x + bw, y + bh), text_x = tx, text_y = ty \<rparr>)"

subsection \<open>The environment of the node\<close>

text \<open>
  What the node takes from outside the repository: the platform name, the home
  directory, and the imaging library.  The two library calls that the source guards with
  \<open>try/except\<close> (\<open>ImageFont.truetype\<close>, \<open>draw.textbbox\<close>) return an exception or a
  value; those it calls unguarded are taken to return.  \<open>rounded_rectangle\<close> says
  which pixels the rasteriser fills for a rectangle and a radius, \<open>text_mask\<close> how much
  of a pixel (0 to 255) the glyphs of a text drawn at an origin cover, \<open>composite\<close> is
  the compositor on one pixel (destination first) and \<open>blend\<close> what the text call does
  with a partly covered pixel.
\<close>

record 'f env =
  platform_system :: string
  home :: string
  truetype :: "string \<Rightarrow> int \<Rightarrow> py_exc + 'f"
  load_default :: 'f
  textbbox :: "string \<Rightarrow> 'f \<Rightarrow> py_exc + bbox"
  textlength :: "string \<Rightarrow> 'f \<Rightarrow> rat"
  size_of :: "'f \<Rightarrow> rat"
  rounded_rectangle :: "bbox \<Rightarrow> int \<Rightarrow> int \<Rightarrow> int \<Rightarrow> bool"
  text_mask :: "'f \<Rightarrow> string \<Rightarrow> int \<times> int \<Rightarrow> int \<Rightarrow> int \<Rightarrow> u8"
  composite :: "rgba_px \<Rightarrow> rgba_px \<Rightarrow> rgba_px"
  blend :: "rgba_px \<Rightarrow> rgba_px \<Rightarrow> u8 \<Rightarrow> rgba_px"

subsection \<open>Fonts\<close>

definition lower_char :: "char \<Rightarrow> char" where
  "lower_char c = (let n = (of_char c :: nat) in
                     if 65 \<le> n \<and> n \<le> 90 then char_of (n + 32) else c)"

definition lower :: "string \<Rightarrow> string" where
  "lower s = map lower_char s"

text \<open>\<open>os.path.join\<close> of the POSIX path module, for a relative second part.\<close>

definition path_join :: "string \<Rightarrow> string \<Rightarrow> string" where
  "path_join a b = (if a = [] \<or> last a = CHR ''/'' then a @ b else a @ CHR ''/'' # b)"

definition font_candidates :: "'f env \<Rightarrow> string \<Rightarrow> string list" where
  "font_candidates env fam =
     (if fam = ''Arial'' then
        [''Arial.ttf'', ''arial.ttf'', ''/Library/Fonts/Arial.ttf'',
         ''C:'' @ CHR 0x5C # ''Windows'' @ CHR 0x5C # ''Fonts'' @ CHR 0x5C # ''arial.ttf'',
         ''/usr/share/fonts/truetype/msttcorefonts/Arial.ttf'']
      else if fam = ''Monospace'' then
        [''DejaVuSansMono.ttf'',
         ''/usr/share/fonts/truetype/dejavu/DejaVuSansMono.ttf'',
         ''/Library/Fonts/Menlo.ttc'',
         ''C:'' @ CHR 0x5C # ''Windows'' @ CHR 0x5C # ''Fonts'' @ CHR 0x5C # ''consola.ttf'']
      else [])
     @ (if lower (platform_system env) = ''linux'' then
          [path_join (path_join (home env) ''.fonts'') ''DejaVuSansMono.ttf'',
           path_join (path_join (path_join (path_join (home env) ''.local'') ''share'') ''fonts'')
             ''DejaVuSansMono.ttf'']
        else [])"

text \<open>
  \<open>_load_font\<close>: the loop over the candidates returns the first font that loads and
  passes over every exception; after the loop comes the built-in font.
\<close>

fun load_loop :: "'f env \<Rightarrow> string list \<Rightarrow> int \<Rightarrow> py_exc + 'f" where
  "load_loop env [] sz = Inr (load_default env)"
| "load_loop env (p # ps) sz =
     (case truetype env p sz of Inr f \<Rightarrow> Inr f | Inl e \<Rightarrow> load_loop env ps sz)"

definition load_font :: "'f env \<Rightarrow> string \<Rightarrow> int \<Rightarrow> py_exc + 'f" where
  "load_font env fam sz = load_loop env (font_candidates env fam) sz"

text \<open>\<open>_text_bbox\<close>: the measured box, or \<open>(0, 0, w, h)\<close> from the advance and the size.\<close>

definition text_bbox :: "'f env \<Rightarrow> string \<Rightarrow> 'f \<Rightarrow> bbox" where
  "text_bbox env text font =
     (case textbbox env text font of
        Inr bb \<Rightarrow> bb
      | Inl e \<Rightarrow> (0, 0, py_int (textlength env text font), py_int (size_of env font)))"

subsection \<open>Drawing\<close>

definition new_image :: "nat \<Rightarrow> nat \<Rightarrow> rgba_px \<Rightarrow> pil_image" where
  "new_image w h fill = \<lparr> width = w, height = h, px = (\<lambda>x y. fill) \<rparr>"

text \<open>An ink given as integers is clipped to bytes.\<close>

definition clip8 :: "int \<Rightarrow> u8" where
  "clip8 v = word_of_int (max 0 (min 255 v))"

definition ink_px :: "int \<times> int \<times> int \<times> int \<Rightarrow> rgba_px" where
  "ink_px c = (case c of (r, g, b, a) \<Rightarrow> (clip8 r, clip8 g, clip8 b, clip8 a))"

text \<open>
  A drawing context of mode RGBA on an RGBA image writes the ink, alpha included, over
  the pixels of the shape; it does not blend.
\<close>

definition draw_rounded_rectangle :: "'f env \<Rightarrow> pil_image \<Rightarrow> bbox \<Rightarrow> int \<Rightarrow> rgba_px \<Rightarrow> pil_image" where
  "draw_rounded_rectangle env im rc rx fill =
     im\<lparr> px := (\<lambda>x y. if rounded_rectangle env rc rx (int x) (int y) then fill else px im x y) \<rparr>"

definition alpha_composite :: "'f env \<Rightarrow> pil_image \<Rightarrow> pil_image \<Rightarrow> pil_image" where
  "alpha_composite env im1 im2 =
     \<lparr> width = width im1, height = height im1,
       px = (\<lambda>x y. composite env (px im1 x y) (px im2 x y)) \<rparr>"

text \<open>
  The text call leaves a pixel that the glyphs do not touch, writes the ink on a pixel
  they cover, and blends on a pixel they cover in part.
\<close>

definition draw_text :: "'f env \<Rightarrow> pil_image \<Rightarrow> int \<times> int \<Rightarrow> string \<Rightarrow> 'f \<Rightarrow> rgba_px \<Rightarrow> pil_image" where
  "draw_text env im origin text font ink =
     im\<lparr> px := (\<lambda>x y. let m = text_mask env font text origin (int x) (int y)
                      in if m = 0 then px im x y
                         else if m = 255 then ink
                         else blend env (px im x y) ink m) \<rparr>"

subsection \<open>The node\<close>

record opts =
  font_family :: string
  font_size :: int
  placement :: string
  edge_offset :: int
  color_scheme :: string
  padding :: int
  corner_radius :: int

definition default_opts :: opts where
  "default_opts = \<lparr> font_family = ''Arial'', font_size = 30, placement = ''top_left'',
                    edge_offset = 30, color_scheme = ''black_on_white'', padding = 15,
                    corner_radius = 15 \<rparr>"

text \<open>The layout of the label on an image of a given size, from the measured text
  (lines 118 to 128).\<close>

definition layout_of :: "'f env \<Rightarrow> 'f \<Rightarrow> string \<Rightarrow> opts \<Rightarrow> nat \<Rightarrow> nat \<Rightarrow> layout" where
  "layout_of env font text os w h =
     label_layout (int w) (int h) (text_bbox env text font)
       (padding os) (placement os) (edge_offset os) (corner_radius os)"

text \<open>
  The body of the loop up to the text call (lines 114 to 138): the box on a transparent
  overlay, the overlay composited over the base, the text on the result.
\<close>

definition render :: "'f env \<Rightarrow> 'f \<Rightarrow> string \<Rightarrow> opts \<Rightarrow> string \<Rightarrow> string \<Rightarrow> rat tensor \<Rightarrow> py_exc + pil_image" where
  "render env font text os text_col bg_col t =
     (case fromarray_rgba (tensor_to_array t) of
        Inl e \<Rightarrow> Inl e
      | Inr base \<Rightarrow>
          let g = layout_of env font text os (width base) (height base);
              overlay = new_image (width base) (height base) (0, 0, 0, 0)
          in case rgba bg_col (1 / 2) of
               Inl e \<Rightarrow> Inl e
             | Inr fill \<Rightarrow>
                 let overlay' = draw_rounded_rectangle env overlay (rect g) (radius g) (ink_px fill);
                     base' = alpha_composite env base overlay'
                 in case rgba text_col 1 of
                      Inl e \<Rightarrow> Inl e
                    | Inr ink \<Rightarrow>
                        Inr (draw_text env base' (text_x g, text_y g) text font (ink_px ink)))"

definition label_image :: "'f env \<Rightarrow> 'f \<Rightarrow> string \<Rightarrow> opts \<Rightarrow> string \<Rightarrow> string \<Rightarrow> rat tensor \<Rightarrow> py_exc + rat tensor" where
  "label_image env font text os text_col bg_col t =
     (case render env font text os text_col bg_col t of
        Inl e \<Rightarrow> Inl e
      | Inr im \<Rightarrow> Inr (pil_to_tensor im))"

text \<open>The loop over the batch: the results are appended in the order of the indices.\<close>

fun label_loop :: "(nat \<Rightarrow> py_exc + rat tensor) \<Rightarrow> nat list \<Rightarrow> py_exc + rat tensor list" where
  "label_loop f [] = Inr []"
| "label_loop f (i # is) =
     (case f i of
        Inl e \<Rightarrow> Inl e
      | Inr r \<Rightarrow> (case label_loop f is of Inl e \<Rightarrow> Inl e | Inr rs \<Rightarrow> Inr (r # rs)))"

text \<open>\<open>add_label\<close> with a loaded font (lines 107 to 142).\<close>

definition label_batch :: "'f env \<Rightarrow> 'f \<Rightarrow> rat tensor \<Rightarrow> string \<Rightarrow> opts \<Rightarrow> py_exc + rat tensor" where
  "label_batch env font img text os =
     (case scheme_colours (color_scheme os) of (text_col, bg_col) \<Rightarrow>
        (case shape img of
           [] \<Rightarrow> Inl IndexError
         | n # _ \<Rightarrow>
             (case label_loop (\<lambda>i. label_image env font text os text_col bg_col (select img i)) [0..<n] of
                Inl e \<Rightarrow> Inl e
              | Inr out \<Rightarrow> stack out)))"

definition add_label :: "'f env \<Rightarrow> rat tensor \<Rightarrow> string \<Rightarrow> opts \<Rightarrow> py_exc + rat tensor" where
  "add_label env img text os =
     (let img' = (if dim img = 3 then unsqueeze0 img else img)
      in case load_font env (font_family os) (font_size os) of
           Inl e \<Rightarrow> Inl e
         | Inr font \<Rightarrow> label_batch env font img' text os)"

subsection \<open>The pixels of a labelled image\<close>

text \<open>
  What the body of the loop leaves at a pixel, from the pixel \<open>base\<close> of the input
  image: the overlay (the ink of the box where the rasteriser fills, transparent
  elsewhere) composited over \<open>base\<close>, then the text on the result.  The two inks are
  those of \<open>_rgba(bg_col, 0.5)\<close> and \<open>_rgba(text_col, 1.0)\<close> for the two schemes.
  It is shown below to be the pixel of \<open>render\<close>.
\<close>

definition label_px :: "'f env \<Rightarrow> 'f \<Rightarrow> string \<Rightarrow> opts \<Rightarrow> nat \<Rightarrow> nat \<Rightarrow> rgba_px \<Rightarrow> nat \<Rightarrow> nat \<Rightarrow> rgba_px" where
  "label_px env font text os w h base x y =
     (let g = layout_of env font text os w h;
          m = text_mask env font text (text_x g, text_y g) (int x) (int y);
          under = composite env base
                    (if rounded_rectangle env (rect g) (radius g) (int x) (int y)
                     then (if color_scheme os = ''white_on_black'' then (0, 0, 0, 127)
                           else (255, 255, 255, 127))
                     else (0, 0, 0, 0));
          ink = (if color_scheme os = ''white_on_black'' then (255, 255, 255, 255)
                 else (0, 0, 0, 255))
      in if m = 0 then under else if m = 255 then ink else blend env under ink m)"

subsection \<open>The node on a store\<close>

text \<open>
  The objects of a run live in a store: a tensor or an image at an address, and the
  next free address.  A new object goes to the next free address; the two drawing
  calls change the image at an address in place.  Reading an address that holds no
  object of the expected kind gives an empty one; the node reads only addresses it
  has just allocated.
\<close>

type_synonym addr = nat

datatype obj = Tensor "rat tensor" | Img pil_image

record store =
  cells :: "addr \<Rightarrow> obj option"
  next_free :: addr

definition alloc :: "obj \<Rightarrow> store \<Rightarrow> addr \<times> store" where
  "alloc v s = (next_free s, \<lparr> cells = (cells s)(next_free s \<mapsto> v), next_free = Suc (next_free s) \<rparr>)"

definition get_img :: "store \<Rightarrow> addr \<Rightarrow> pil_image" where
  "get_img s p = (case cells s p of Some (Img im) \<Rightarrow> im | _ \<Rightarrow> new_image 0 0 (0, 0, 0, 0))"

definition get_tensor :: "store \<Rightarrow> addr \<Rightarrow> rat tensor" where
  "get_tensor s p = (case cells s p of Some (Tensor t) \<Rightarrow> t | _ \<Rightarrow> \<lparr> shape = [], elem = (\<lambda>ix. 0) \<rparr>)"

definition modify_img :: "addr \<Rightarrow> (pil_image \<Rightarrow> pil_image) \<Rightarrow> store \<Rightarrow> store" where
  "modify_img p f s = s\<lparr> cells := (cells s)(p \<mapsto> Img (f (get_img s p))) \<rparr>"

text \<open>
  A tensor of the source is a view on a stored tensor: \<open>image.unsqueeze(0)\<close> and
  \<open>image[i]\<close> share the storage of \<open>image\<close>.  A view on an address that holds no
  tensor cannot be read; the functions below then raise, which no run from a valid
  input does.
\<close>

datatype view = Whole | Unsqueeze view | Index nat view

fun view_of :: "view \<Rightarrow> rat tensor \<Rightarrow> rat tensor" where
  "view_of Whole t = t"
| "view_of (Unsqueeze v) t = unsqueeze0 (view_of v t)"
| "view_of (Index i v) t = select (view_of v t) i"

type_synonym tref = "addr \<times> view"

definition deref :: "store \<Rightarrow> tref \<Rightarrow> rat tensor option" where
  "deref s r = (case cells s (fst r) of Some (Tensor t) \<Rightarrow> Some (view_of (snd r) t) | _ \<Rightarrow> None)"

text \<open>
  The body of the loop (lines 114 to 140) on the store.  The conversions
  (\<open>_tensor_to_pil\<close>, \<open>convert\<close>, \<open>alpha_composite\<close>, \<open>_pil_to_tensor\<close>) read their
  argument and return a new object; the arrays between the steps of a conversion, which
  no name of the source holds, get no cell.  \<open>base\<close> is the image of line 114,
  \<open>overlay\<close> the one of line 126, on which \<open>rounded_rectangle\<close> draws, \<open>base'\<close> the
  composite of line 132, on which \<open>text\<close> draws.  The store is returned also when a
  call raises.
\<close>

definition label_image_st :: "'f env \<Rightarrow> 'f \<Rightarrow> string \<Rightarrow> opts \<Rightarrow> string \<Rightarrow> string \<Rightarrow> tref \<Rightarrow> store \<Rightarrow> (py_exc + addr) \<times> store" where
  "label_image_st env font text os text_col bg_col r s =
     (case deref s r of
        None \<Rightarrow> (Inl RuntimeError, s)
      | Some t \<Rightarrow>
          (case fromarray_rgba (tensor_to_array t) of
             Inl e \<Rightarrow> (Inl e, s)
           | Inr base0 \<Rightarrow>
               let (base, s1) = alloc (Img base0) s;
                   g = layout_of env font text os (width (get_img s1 base)) (height (get_img s1 base));
                   (overlay, s2) = alloc (Img (new_image (width (get_img s1 base))
                                                (height (get_img s1 base)) (0, 0, 0, 0))) s1
               in case rgba bg_col (1 / 2) of
                    Inl e \<Rightarrow> (Inl e, s2)
                  | Inr fill \<Rightarrow>
                      let s3 = modify_img overlay
                                 (\<lambda>im. draw_rounded_rectangle env im (rect g) (radius g) (ink_px fill)) s2;
                          (base', s4) = alloc (Img (alpha_composite env (get_img s3 base)
                                                      (get_img s3 overlay))) s3
                      in case rgba text_col 1 of
                           Inl e \<Rightarrow> (Inl e, s4)
                         | Inr ink \<Rightarrow>
                             let s5 = modify_img base'
                                        (\<lambda>im. draw_text env im (text_x g, text_y g) text font (ink_px ink)) s4;
                                 (res, s6) = alloc (Tensor (pil_to_tensor (get_img s5 base'))) s5
                             in (Inr res, s6)))"

text \<open>The loop, \<open>torch.stack\<close> on the tensors of the list, and \<open>add_label\<close>.\<close>

fun label_loop_st :: "(nat \<Rightarrow> store \<Rightarrow> (py_exc + addr) \<times> store) \<Rightarrow> nat list \<Rightarrow> store \<Rightarrow> (py_exc + addr list) \<times> store" where
  "label_loop_st f [] s = (Inr [], s)"
| "label_loop_st f (i # is) s =
     (case f i s of
        (Inl e, s1) \<Rightarrow> (Inl e, s1)
      | (Inr p, s1) \<Rightarrow>
          (case label_loop_st f is s1 of
             (Inl e, s2) \<Rightarrow> (Inl e, s2)
           | (Inr ps, s2) \<Rightarrow> (Inr (p # ps), s2)))"

definition label_batch_st :: "'f env \<Rightarrow> 'f \<Rightarrow> tref \<Rightarrow> string \<Rightarrow> opts \<Rightarrow> store \<Rightarrow> (py_exc + addr) \<times> store" where
  "label_batch_st env font r text os s =
     (case scheme_colours (color_scheme os) of (text_col, bg_col) \<Rightarrow>
        (case deref s r of
           None \<Rightarrow> (Inl RuntimeError, s)
         | Some img \<Rightarrow>
             (case shape img of
                [] \<Rightarrow> (Inl IndexError, s)
              | n # _ \<Rightarrow>
                  (case label_loop_st
                          (\<lambda>i. label_image_st env font text os text_col bg_col (fst r, Index i (snd r)))
                          [0..<n] s of
                     (Inl e, s1) \<Rightarrow> (Inl e, s1)
                   | (Inr out, s1) \<Rightarrow>
                       (case stack (map (get_tensor s1) out) of
                          Inl e \<Rightarrow> (Inl e, s1)
                        | Inr t \<Rightarrow> (let (res, s2) = alloc (Tensor t) s1 in (Inr res, s2)))))))"

definition add_label_st :: "'f env \<Rightarrow> tref \<Rightarrow> string \<Rightarrow> opts \<Rightarrow> store \<Rightarrow> (py_exc + addr) \<times> store" where
  "add_label_st env r text os s =
     (case deref s r of
        None \<Rightarrow> (Inl RuntimeError, s)
      | Some img \<Rightarrow>
          let r' = (if dim img = 3 then (fst r, Unsqueeze (snd r)) else r)
          in case load_font env (font_family os) (font_size os) of
               Inl e \<Rightarrow> (Inl e, s)
             | Inr font \<Rightarrow> label_batch_st env font r' text os s)"

text \<open>A later store extends an earlier one: nothing allocated before has changed.\<close>

definition extends :: "store \<Rightarrow> store \<Rightarrow> bool" where
  "extends s s' \<longleftrightarrow> next_free s \<le> next_free s' \<and> (\<forall>a < next_free s. cells s' a = cells s a)"

subsection \<open>What the compositor is taken to do\<close>

definition alpha :: "rgba_px \<Rightarrow> u8" where
  "alpha p = channel p 3"


subsection \<open>What the rasteriser is taken to do\<close>

text \<open>
  The rounded rectangle of the library is given by its two corners, and both corners
  belong to it: nothing outside the bounding box is filled, and inside it every pixel
  is filled that lies, in one direction at least, more than a radius away from both
  sides (the corners are rounded inside the squares that remain).  The library raises
  \<open>ValueError\<close> for a second corner left of or above the first; this happens for a
  negative padding only, outside the declared range of the node, and \<open>render\<close> takes
  the call to return.
\<close>

definition fills_box :: "(bbox \<Rightarrow> int \<Rightarrow> int \<Rightarrow> int \<Rightarrow> bool) \<Rightarrow> bool" where
  "fills_box rr \<longleftrightarrow>
     (\<forall>x0 y0 x1 y1 r x y.
        (rr (x0, y0, x1, y1) r x y \<longrightarrow> x0 \<le> x \<and> x \<le> x1 \<and> y0 \<le> y \<and> y \<le> y1) \<and>
        (x0 \<le> x \<and> x \<le> x1 \<and> y0 \<le> y \<and> y \<le> y1 \<and>
         (x0 + r < x \<and> x < x1 - r \<or> y0 + r < y \<and> y < y1 - r) \<longrightarrow>
           rr (x0, y0, x1, y1) r x y))"

subsection \<open>A sample environment\<close>

text \<open>
  A small environment to run the node on: a Linux host on which the fonts of a given
  list of paths load, a font is its size, a character is 6 pixels wide, the rasteriser
  fills the rectangle with both corners included, the glyphs cover one pixel, and the
  compositor and the blend round to the nearest byte.
\<close>

definition over_nearest :: "rgba_px \<Rightarrow> rgba_px \<Rightarrow> rgba_px" where
  "over_nearest dst src =
     (let sa = int (unat (alpha src)); da = int (unat (alpha dst))
      in if sa = 0 then dst
         else let outa255 = sa * 255 + da * (255 - sa);
                  ch = (\<lambda>c. word_of_int (round
                          (of_int (int (unat (channel src c)) * sa * 255
                                   + int (unat (channel dst c)) * da * (255 - sa))
                           / (of_int outa255 :: rat))))
              in (ch 0, ch 1, ch 2, word_of_int (round (of_int outa255 / (255 :: rat)))))"

definition blend_nearest :: "rgba_px \<Rightarrow> rgba_px \<Rightarrow> u8 \<Rightarrow> rgba_px" where
  "blend_nearest dst ink m =
     (let k = int (unat m);
          ch = (\<lambda>c. word_of_int (round
                  (of_int (int (unat (channel dst c)) * (255 - k) + int (unat (channel ink c)) * k)
                   / (255 :: rat))))
      in (ch 0, ch 1, ch 2, ch 3))"

definition sample_env :: "string list \<Rightarrow> nat env" where
  "sample_env installed =
     \<lparr> platform_system = ''Linux'', home = ''/home/user'',
       truetype = (\<lambda>p sz. if p \<in> set installed \<and> 0 < sz then Inr (nat sz) else Inl OSError),
       load_default = 10,
       textbbox = (\<lambda>text f. Inr (0, 2, int (length text) * 6, 11)),
       textlength = (\<lambda>text f. of_nat (length text) * 6),
       size_of = (\<lambda>f. of_nat f),
       rounded_rectangle = (\<lambda>rc rx x y. case rc of (x0, y0, x1, y1) \<Rightarrow>
                              x0 \<le> x \<and> x \<le> x1 \<and> y0 \<le> y \<and> y \<le> y1),
       text_mask = (\<lambda>f text origin x y. case origin of (tx, ty) \<Rightarrow>
                              if x = tx \<and> y = ty + 2 then 255 else 0),
       composite = over_nearest,
       blend = blend_nearest \<rparr>"

text \<open>A tensor of a given shape whose values are all the same.\<close>

definition solid :: "nat list \<Rightarrow> rat \<Rightarrow> rat tensor" where
  "solid sh v = \<lparr> shape = sh, elem = (\<lambda>ix. v) \<rparr>"

text \<open>Options that put the label in the top left corner, with square corners.\<close>

definition example_opts :: opts where
  "example_opts = \<lparr> font_family = ''Arial'', font_size = 30, placement = ''top_left'',
                    edge_offset = 0, color_scheme = ''black_on_white'', padding = 10,
                    corner_radius = 0 \<rparr>"

text \<open>A store that holds one batch of one image, at address 0.\<close>

definition sample_store :: store where
  "sample_store = \<lparr> cells = [0 \<mapsto> Tensor (solid [1, 4, 5, 3] (1 / 5))], next_free = 1 \<rparr>"

text \<open>The two schemes, as the pair of colour strings they give.\<close>

definition scheme_ok :: "string \<Rightarrow> string \<Rightarrow> bool" where
  "scheme_ok tc bc \<longleftrightarrow> (tc = ''#FFFFFF'' \<and> bc = ''#000000'') \<or> (tc = ''#000000'' \<and> bc = ''#FFFFFF'')"

section \<open>Properties\<close>

subsection \<open>Helper facts\<close>


lemma layout_fields:
  "box_w (label_layout W H (l, t, r, b) p pl e cr) = r - l + p * 2"
  "box_h (label_layout W H (l, t, r, b) p pl e cr) = b - t + p * 2"
  "box_x (label_layout W H (l, t, r, b) p pl e cr) = fst (place_xy W H (r - l + p * 2) (b - t + p * 2) pl e)"
  "box_y (label_layout W H (l, t, r, b) p pl e cr) = snd (place_xy W H (r - l + p * 2) (b - t + p * 2) pl e)"
  "radius (label_layout W H (l, t, r, b) p pl e cr) = clamp_radius cr (r - l + p * 2) (b - t + p * 2)"
  by (simp_all add: label_layout_def Let_def split: prod.splits)

lemma layout_rect:
  "rect (label_layout W H (l, t, r, b) p pl e cr) =
     (let x = fst (place_xy W H (r - l + p * 2) (b - t + p * 2) pl e);
          y = snd (place_xy W H (r - l + p * 2) (b - t + p * 2) pl e)
      in (x, y, x + (r - l + p * 2), y + (b - t + p * 2)))"
  by (simp add: label_layout_def Let_def split: prod.splits)



subsection \<open>Box position\<close>

lemma place_xy_center:
  "place_xy W H bw bh ''center'' e = ((W - bw) div 2, (H - bh) div 2)"
  by (simp add: place_xy_def)

lemma floor_half_centre:
  "\<bar>(rat_of_int ((W - bw) div 2) + of_int bw / 2) - of_int W / 2\<bar> \<le> 1 / 2"
proof -
  define d where "d = W - bw"
  have "2 * (d div 2) \<le> d" "d \<le> 2 * (d div 2) + 1"
    by presburger+
  then have "rat_of_int (2 * (d div 2)) \<le> of_int d" "rat_of_int d \<le> of_int (2 * (d div 2) + 1)"
    by (simp_all only: of_int_le_iff)
  then have "\<bar>rat_of_int (d div 2) - of_int d / 2\<bar> \<le> 1 / 2"
    by (simp add: field_simps abs_le_iff)
  moreover have "(rat_of_int ((W - bw) div 2) + of_int bw / 2) - of_int W / 2 =
      rat_of_int (d div 2) - of_int d / 2"
    by (simp add: d_def field_simps)
  ultimately show ?thesis by simp
qed

text \<open>
  C5.  For an image of width \<open>W\<close> and height \<open>H\<close>, a box of width \<open>bw\<close> and height
  \<open>bh\<close> and an edge offset \<open>e\<close>, the corner of the box is \<open>(e, e)\<close> for top\_left,
  \<open>(W - bw - e, e)\<close> for top\_right, \<open>(e, H - bh - e)\<close> for bottom\_left,
  \<open>(W - bw - e, H - bh - e)\<close> for bottom\_right and the floored halves
  \<open>((W - bw) div 2, (H - bh) div 2)\<close> for center.  So top\_left with offset 0 is the
  corner \<open>(0, 0)\<close>, and for center the centre of the box is within half a pixel of the
  centre of the image on both axes.
\<close>

theorem place_xy_positions:
  "place_xy W H bw bh ''top_left'' e = (e, e) \<and>
   place_xy W H bw bh ''top_right'' e = (W - bw - e, e) \<and>
   place_xy W H bw bh ''bottom_left'' e = (e, H - bh - e) \<and>
   place_xy W H bw bh ''bottom_right'' e = (W - bw - e, H - bh - e) \<and>
   place_xy W H bw bh ''center'' e = ((W - bw) div 2, (H - bh) div 2) \<and>
   place_xy W H bw bh ''top_left'' 0 = (0, 0) \<and>
   \<bar>(rat_of_int (fst (place_xy W H bw bh ''center'' e)) + of_int bw / 2) - of_int W / 2\<bar> \<le> 1 / 2 \<and>
   \<bar>(rat_of_int (snd (place_xy W H bw bh ''center'' e)) + of_int bh / 2) - of_int H / 2\<bar> \<le> 1 / 2"
proof -
  have corners:
    "place_xy W H bw bh ''top_left'' e = (e, e)"
    "place_xy W H bw bh ''top_right'' e = (W - bw - e, e)"
    "place_xy W H bw bh ''bottom_left'' e = (e, H - bh - e)"
    "place_xy W H bw bh ''bottom_right'' e = (W - bw - e, H - bh - e)"
    "place_xy W H bw bh ''top_left'' 0 = (0, 0)"
    by (simp_all add: place_xy_def)
  have cx: "\<bar>(rat_of_int (fst (place_xy W H bw bh ''center'' e)) + of_int bw / 2) - of_int W / 2\<bar> \<le> 1 / 2"
    unfolding place_xy_center fst_conv by (rule floor_half_centre)
  have cy: "\<bar>(rat_of_int (snd (place_xy W H bw bh ''center'' e)) + of_int bh / 2) - of_int H / 2\<bar> \<le> 1 / 2"
    unfolding place_xy_center snd_conv by (rule floor_half_centre)
  from corners place_xy_center cx cy show ?thesis by blast
qed

theorem place_xy_positions_witness:
  "place_xy 100 80 31 20 ''top_right'' 5 = (64, 5) \<and>
   place_xy 100 80 31 20 ''bottom_right'' 5 = (64, 55) \<and>
   place_xy 100 80 31 20 ''center'' 5 = (34, 30)"
  using place_xy_positions [of 100 80 31 20 5] by simp

subsection \<open>Corner radius\<close>

lemma clamp_radius_nonneg: "0 \<le> clamp_radius cr bw bh"
  by (simp add: clamp_radius_def)

lemma clamp_radius_le_half:
  assumes "0 \<le> bw" "0 \<le> bh"
  shows "2 * clamp_radius cr bw bh \<le> min bw bh"
proof -
  have "0 \<le> min bw bh div 2" using assms by simp
  then have "clamp_radius cr bw bh \<le> min bw bh div 2"
    by (simp add: clamp_radius_def)
  moreover have "2 * (min bw bh div 2) \<le> min bw bh" by presburger
  ultimately show ?thesis by linarith
qed

text \<open>
  C4.  For every requested corner radius \<open>cr\<close> (larger than the box, or negative), the
  radius used for the rounded rectangle is never negative and never more than half of the
  smaller side of the box.  The box is the one of a measured text (\<open>l \<le> r\<close>, \<open>t \<le> b\<close>)
  with a padding of the declared range (\<open>0 \<le> p\<close>), so its sides are not negative.
\<close>

theorem corner_radius_clamped:
  assumes "l \<le> r" and "t \<le> b" and "0 \<le> p"
  shows "0 \<le> radius (label_layout W H (l, t, r, b) p pl e cr) \<and>
         rat_of_int (radius (label_layout W H (l, t, r, b) p pl e cr)) \<le>
           of_int (min (box_w (label_layout W H (l, t, r, b) p pl e cr))
                       (box_h (label_layout W H (l, t, r, b) p pl e cr))) / 2"
proof -
  let ?bw = "r - l + p * 2" and ?bh = "b - t + p * 2"
  have nn: "0 \<le> ?bw" "0 \<le> ?bh" using assms by simp_all
  have "2 * clamp_radius cr ?bw ?bh \<le> min ?bw ?bh"
    by (rule clamp_radius_le_half [OF nn])
  then have "rat_of_int (2 * clamp_radius cr ?bw ?bh) \<le> of_int (min ?bw ?bh)"
    by (simp only: of_int_le_iff)
  then have "rat_of_int (clamp_radius cr ?bw ?bh) \<le> of_int (min ?bw ?bh) / 2"
    by simp
  then show ?thesis
    by (simp add: layout_fields clamp_radius_nonneg)
qed

theorem corner_radius_clamped_witness:
  "radius (label_layout 100 100 (0, 0, 24, 14) 10 ''top_left'' 0 128) = 17 \<and>
   box_h (label_layout 100 100 (0, 0, 24, 14) 10 ''top_left'' 0 128) = 34 \<and>
   radius (label_layout 100 100 (0, 0, 24, 14) 10 ''top_left'' 0 (- 3)) = 0"
proof -
  have h: "(0::int) \<le> 24" "(0::int) \<le> 14" "(0::int) \<le> 10" by simp_all
  note corner_radius_clamped [OF h, of 100 100 "''top_left''" 0 128]
  then show ?thesis
    by (simp add: layout_fields clamp_radius_def)
qed

subsection \<open>Text position\<close>



subsection \<open>The colours and the loop\<close>

lemma py_int_255: "py_int (1 / 2 * 255) = 127" "py_int (1 * 255) = 255"
  by (simp_all add: py_int_def floor_unique)

lemma rgba_white: "rgba ''#FFFFFF'' a = Inr (255, 255, 255, max 0 (min 255 (py_int (a * 255))))"
  by (simp add: rgba_def strip_def strip_by_def lstrip_def is_space_def is_c_space_def int16_def
      hex_digits_def hex_val_def Let_def)

lemma rgba_black: "rgba ''#000000'' a = Inr (0, 0, 0, max 0 (min 255 (py_int (a * 255))))"
  by (simp add: rgba_def strip_def strip_by_def lstrip_def is_space_def is_c_space_def int16_def
      hex_digits_def hex_val_def Let_def)

lemma scheme_cases:
  "scheme_colours cs = (if cs = ''white_on_black'' then (''#FFFFFF'', ''#000000'') else (''#000000'', ''#FFFFFF''))"
  by (simp add: scheme_colours_def)

lemma fromarray_rgb:
  assumes "shape a = [H, W, 3]"
  shows "fromarray_rgba a = Inr \<lparr> width = W, height = H,
           px = (\<lambda>x y. (elem a [y, x, 0], elem a [y, x, 1], elem a [y, x, 2], 255)) \<rparr>"
  using assms by (simp add: fromarray_rgba_def)

lemma scheme_ok_scheme: "scheme_colours cs = (tc, bc) \<Longrightarrow> scheme_ok tc bc"
  by (auto simp: scheme_colours_def scheme_ok_def split: if_splits)

lemma render_ok:
  assumes "shape t = [H, W, 3]" and "scheme_ok tc bc"
  shows "\<exists>im. render env font text os tc bc t = Inr im \<and> width im = W \<and> height im = H"
proof -
  have sh: "shape (tensor_to_array t) = [H, W, 3]"
    using assms(1) by (simp add: tensor_to_array_def)
  from assms(2) show ?thesis
    unfolding scheme_ok_def
    by (auto simp: render_def fromarray_rgb [OF sh] rgba_white rgba_black Let_def
        draw_text_def alpha_composite_def)
qed

lemma label_image_ok:
  assumes "shape t = [H, W, 3]" and "scheme_ok tc bc"
  shows "\<exists>r. label_image env font text os tc bc t = Inr r \<and> shape r = [H, W, 3]"
proof -
  from render_ok [OF assms, of env font "text" os] obtain im where
    "render env font text os tc bc t = Inr im" "width im = W" "height im = H"
    by blast
  then show ?thesis
    by (simp add: label_image_def pil_to_tensor_def)
qed

lemma label_loop_Inr_iff: "label_loop f js = Inr rs \<longleftrightarrow> map f js = map Inr rs"
proof (induction js arbitrary: rs)
  case Nil
  then show ?case by auto
next
  case (Cons j js)
  show ?case
  proof (cases "f j")
    case (Inl e)
    then show ?thesis by (cases rs) auto
  next
    case (Inr r)
    show ?thesis
    proof (cases "label_loop f js")
      case (Inl e)
      with Cons.IH have "\<And>rs'. map f js \<noteq> map Inr rs'" by (metis sum.distinct(1))
      with Inl Inr show ?thesis by (cases rs) auto
    next
      case inner: (Inr rs')
      with Cons.IH [of rs'] have "map f js = map Inr rs'" by simp
      moreover have "inj (Inr :: rat tensor \<Rightarrow> py_exc + rat tensor)" by (simp add: inj_def)
      ultimately show ?thesis using Inr inner
        by (cases rs) (auto simp: inj_map_eq_map)
    qed
  qed
qed

lemma label_loop_ok:
  assumes "\<And>j. j \<in> set js \<Longrightarrow> \<exists>r. f j = Inr r \<and> P r"
  shows "\<exists>rs. label_loop f js = Inr rs \<and> length rs = length js \<and>
              (\<forall>k<length js. f (js ! k) = Inr (rs ! k) \<and> P (rs ! k))"
  using assms
proof (induction js)
  case Nil
  then show ?case by simp
next
  case (Cons j js)
  from Cons.prems [of j] obtain r where r: "f j = Inr r" "P r" by auto
  from Cons.IH Cons.prems obtain rs where rs: "label_loop f js = Inr rs" "length rs = length js"
      "\<forall>k<length js. f (js ! k) = Inr (rs ! k) \<and> P (rs ! k)"
    by auto
  have "\<forall>k<length (j # js). f ((j # js) ! k) = Inr ((r # rs) ! k) \<and> P ((r # rs) ! k)"
  proof (intro allI impI)
    fix k assume "k < length (j # js)"
    then show "f ((j # js) ! k) = Inr ((r # rs) ! k) \<and> P ((r # rs) ! k)"
      using r rs(3) by (cases k) auto
  qed
  with r rs show ?case by auto
qed

lemma stack_ok:
  assumes "ts \<noteq> []" and "\<forall>k<length ts. shape (ts ! k) = s"
  shows "\<exists>out. stack ts = Inr out \<and> shape out = length ts # s \<and>
               (\<forall>k<length ts. select out k = ts ! k)"
proof -
  from assms(1) obtain t0 tr where ts: "ts = t0 # tr" by (cases ts) auto
  have s0: "shape t0 = s" using assms(2) ts by (auto dest: spec [of _ 0])
  have all: "list_all (\<lambda>t. shape t = shape t0) ts"
    using assms(2) s0 by (simp add: list_all_length)
  let ?out = "\<lparr> shape = length ts # shape t0,
                 elem = (\<lambda>ix. case ix of [] \<Rightarrow> 0
                            | i # r \<Rightarrow> if i < length ts then elem (ts ! i) r else 0) \<rparr>"
  have st: "stack ts = Inr ?out"
    using all unfolding ts by (simp add: stack_def cong: list.case_cong)
  have "\<forall>k<length ts. select ?out k = ts ! k"
    using assms(2) s0 by (simp add: select_def)
  with st s0 show ?thesis by auto
qed

subsection \<open>The batch\<close>

lemma load_loop_total: "\<exists>f. load_loop env ps sz = Inr f"
  by (induction ps) (auto split: sum.splits)

lemma load_font_total: "\<exists>f. load_font env fam sz = Inr f"
  unfolding load_font_def by (rule load_loop_total)

lemma load_loop_all_fail:
  "(\<forall>p \<in> set ps. isl (truetype env p sz)) \<Longrightarrow> load_loop env ps sz = Inr (load_default env)"
  by (induction ps) (auto split: sum.splits)

lemma load_loop_first:
  "(\<forall>q \<in> set qs. isl (truetype env q sz)) \<Longrightarrow> truetype env p sz = Inr f \<Longrightarrow>
     load_loop env (qs @ p # ps) sz = Inr f"
  by (induction qs) (auto split: sum.splits)

lemma select_shape: "shape img = n # s \<Longrightarrow> shape (select img i) = s"
  by (simp add: select_def)

lemma select_unsqueeze0: "select (unsqueeze0 t) 0 = t"
  by (simp add: select_def unsqueeze0_def)

lemma label_batch_ok:
  assumes "shape img = [N, H, W, 3]" and "0 < N"
  shows "\<exists>out. label_batch env font img text os = Inr out \<and> shape out = [N, H, W, 3] \<and>
           (\<forall>i<N. label_image env font text os (fst (scheme_colours (color_scheme os)))
                     (snd (scheme_colours (color_scheme os))) (select img i) = Inr (select out i))"
proof -
  obtain tc bc where sc: "scheme_colours (color_scheme os) = (tc, bc)"
    by (cases "scheme_colours (color_scheme os)")
  have ok: "scheme_ok tc bc" by (rule scheme_ok_scheme [OF sc])
  let ?f = "\<lambda>i. label_image env font text os tc bc (select img i)"
  have "\<exists>r. ?f j = Inr r \<and> shape r = [H, W, 3]" for j
    by (rule label_image_ok [OF select_shape [OF assms(1)] ok])
  then have "\<exists>rs. label_loop ?f [0..<N] = Inr rs \<and> length rs = length [0..<N] \<and>
      (\<forall>k<length [0..<N]. ?f ([0..<N] ! k) = Inr (rs ! k) \<and> shape (rs ! k) = [H, W, 3])"
    by (intro label_loop_ok) blast
  then obtain rs where rs: "label_loop ?f [0..<N] = Inr rs" "length rs = N"
      "\<forall>k<N. ?f k = Inr (rs ! k) \<and> shape (rs ! k) = [H, W, 3]"
    by auto
  have ne: "rs \<noteq> []" using rs(2) assms(2) by auto
  have "\<forall>k<length rs. shape (rs ! k) = [H, W, 3]" using rs(2,3) by simp
  from stack_ok [OF ne this] obtain out where out: "stack rs = Inr out"
      "shape out = length rs # [H, W, 3]" "\<forall>k<length rs. select out k = rs ! k"
    by blast
  have "label_batch env font img text os = Inr out"
    using rs(1) out(1) by (simp add: label_batch_def sc assms(1))
  moreover have "shape out = [N, H, W, 3]" using out(2) rs(2) by simp
  moreover have "\<forall>i<N. ?f i = Inr (select out i)" using rs(2,3) out(3) by simp
  ultimately show ?thesis by (simp add: sc)
qed

lemma add_label_4d:
  assumes "length (shape img) \<noteq> 3" and "load_font env (font_family os) (font_size os) = Inr font"
  shows "add_label env img text os = label_batch env font img text os"
  using assms by (simp add: add_label_def dim_def)

lemma add_label_3d:
  assumes "length (shape img) = 3" and "load_font env (font_family os) (font_size os) = Inr font"
  shows "add_label env img text os = label_batch env font (unsqueeze0 img) text os"
  using assms by (simp add: add_label_def dim_def)

lemma add_label_ok:
  assumes "shape img = [N, H, W, 3]" and "0 < N"
      and "load_font env (font_family os) (font_size os) = Inr font"
  shows "\<exists>out. add_label env img text os = Inr out \<and> shape out = [N, H, W, 3] \<and>
           (\<forall>i<N. label_image env font text os (fst (scheme_colours (color_scheme os)))
                     (snd (scheme_colours (color_scheme os))) (select img i) = Inr (select out i))"
proof -
  have "length (shape img) \<noteq> 3" using assms(1) by simp
  from add_label_4d [OF this assms(3)] label_batch_ok [OF assms(1,2), of env font "text" os]
  show ?thesis by simp
qed

text \<open>
  C1, amended.  For every batch of \<open>N \<ge> 1\<close> images (a tensor of shape
  \<open>[N, H, W, 3]\<close>), \<open>add_label\<close> returns a batch of shape \<open>[N, H, W, 3]\<close>: exactly
  \<open>N\<close> images, each of the height and width of its input, and image \<open>i\<close> of the result
  is the labelled image \<open>i\<close> of the input.
\<close>

theorem add_label_batch:
  assumes "shape img = [N, H, W, 3]" and "0 < N"
  shows "\<exists>out font.
           load_font env (font_family os) (font_size os) = Inr font \<and>
           add_label env img text os = Inr out \<and> shape out = [N, H, W, 3] \<and>
           (\<forall>i<N. shape (select img i) = [H, W, 3] \<and> shape (select out i) = [H, W, 3] \<and>
                   label_image env font text os (fst (scheme_colours (color_scheme os)))
                     (snd (scheme_colours (color_scheme os))) (select img i) = Inr (select out i))"
proof -
  obtain font where font: "load_font env (font_family os) (font_size os) = Inr font"
    using load_font_total [of env "font_family os" "font_size os"] by blast
  from add_label_ok [OF assms font, of "text"] obtain out where out:
    "add_label env img text os = Inr out" "shape out = [N, H, W, 3]"
    "\<forall>i<N. label_image env font text os (fst (scheme_colours (color_scheme os)))
                     (snd (scheme_colours (color_scheme os))) (select img i) = Inr (select out i)"
    by blast
  have "\<forall>i<N. shape (select img i) = [H, W, 3] \<and> shape (select out i) = [H, W, 3]"
    using assms(1) out(2) by (simp add: select_shape)
  with font out show ?thesis by auto
qed

text \<open>
  C9.  A tensor of three dimensions \<open>[H, W, 3]\<close> is handled as the batch of one image
  that \<open>unsqueeze(0)\<close> makes of it: the call returns, its result has the shape
  \<open>[1, H, W, 3]\<close>, and its one image is the labelled input.
\<close>

theorem single_image_is_batch_of_one:
  assumes "shape img = [H, W, 3]"
  shows "add_label env img text os = add_label env (unsqueeze0 img) text os \<and>
         (\<exists>out font.
            load_font env (font_family os) (font_size os) = Inr font \<and>
            add_label env img text os = Inr out \<and> shape out = [1, H, W, 3] \<and>
            label_image env font text os (fst (scheme_colours (color_scheme os)))
              (snd (scheme_colours (color_scheme os))) img = Inr (select out 0))"
proof -
  obtain font where font: "load_font env (font_family os) (font_size os) = Inr font"
    using load_font_total [of env "font_family os" "font_size os"] by blast
  have sh: "shape (unsqueeze0 img) = [1, H, W, 3]"
    using assms by (simp add: unsqueeze0_def)
  have e3: "add_label env img text os = label_batch env font (unsqueeze0 img) text os"
    using assms by (intro add_label_3d [OF _ font]) simp
  have e4: "add_label env (unsqueeze0 img) text os = label_batch env font (unsqueeze0 img) text os"
    using sh by (intro add_label_4d [OF _ font]) simp
  from label_batch_ok [OF sh, of env font "text" os] obtain out where out:
    "label_batch env font (unsqueeze0 img) text os = Inr out" "shape out = [1, H, W, 3]"
    "\<forall>i<1. label_image env font text os (fst (scheme_colours (color_scheme os)))
        (snd (scheme_colours (color_scheme os))) (select (unsqueeze0 img) i) = Inr (select out i)"
    by auto
  from out(3) have "label_image env font text os (fst (scheme_colours (color_scheme os)))
        (snd (scheme_colours (color_scheme os))) img = Inr (select out 0)"
    by (simp add: select_unsqueeze0)
  with font e3 e4 out(1,2) show ?thesis by auto
qed

subsection \<open>The range of the output\<close>

lemma unat_u8_le: "unat (w :: u8) \<le> 255"
proof -
  have "unat w < 2 ^ LENGTH(8)" by (rule unsigned_less)
  then show ?thesis by simp
qed

lemma pil_to_tensor_byte: "\<exists>b :: u8. elem (pil_to_tensor im) ix = of_nat (unat b) / 255"
proof (cases ix)
  case Nil
  then have "elem (pil_to_tensor im) ix = of_nat (unat (0 :: u8)) / 255"
    by (simp add: pil_to_tensor_def)
  then show ?thesis by blast
next
  case (Cons y r1)
  show ?thesis
  proof (cases "\<exists>x c. r1 = [x, c]")
    case True
    then obtain x c where "r1 = [x, c]" by blast
    with Cons show ?thesis by (auto simp: pil_to_tensor_def)
  next
    case False
    with Cons have "elem (pil_to_tensor im) ix = of_nat (unat (0 :: u8)) / 255"
      by (auto simp: pil_to_tensor_def split: list.splits)
    then show ?thesis by blast
  qed
qed

lemma label_image_byte:
  assumes "label_image env font text os tc bc t = Inr r"
  shows "\<exists>b :: u8. elem r ix = of_nat (unat b) / 255"
  using assms pil_to_tensor_byte
  by (auto simp: label_image_def split: sum.splits)

lemma label_loop_nth:
  assumes "label_loop f js = Inr rs" and "k < length rs"
  shows "f (js ! k) = Inr (rs ! k)"
proof -
  from assms(1) have eq: "map f js = map Inr rs" by (simp add: label_loop_Inr_iff)
  then have len: "length js = length rs" by (metis length_map)
  from eq have "map f js ! k = map Inr rs ! k" by simp
  with assms(2) len show ?thesis by simp
qed

lemma stack_elem:
  assumes "stack ts = Inr out"
  shows "elem out ix = (case ix of [] \<Rightarrow> 0 | i # r \<Rightarrow> if i < length ts then elem (ts ! i) r else 0)"
  using assms by (auto simp: stack_def split: list.splits if_splits)

lemma label_batch_byte:
  assumes "label_batch env font img text os = Inr out"
  shows "\<exists>b :: u8. elem out ix = of_nat (unat b) / 255"
proof -
  obtain tc bc where sc: "scheme_colours (color_scheme os) = (tc, bc)"
    by (cases "scheme_colours (color_scheme os)")
  from assms obtain n sh rs where
    rs: "label_loop (\<lambda>i. label_image env font text os tc bc (select img i)) [0..<n] = Inr rs"
    and st: "stack rs = Inr out"
    by (auto simp: label_batch_def sc split: list.splits sum.splits)
  have zero: "(0 :: rat) = of_nat (unat (0 :: u8)) / 255" by simp
  show ?thesis
  proof (cases ix)
    case Nil
    then have "elem out ix = 0" by (simp add: stack_elem [OF st])
    with zero show ?thesis by metis
  next
    case (Cons i r)
    show ?thesis
    proof (cases "i < length rs")
      case True
      have "label_image env font text os tc bc (select img ([0..<n] ! i)) = Inr (rs ! i)"
        by (rule label_loop_nth [OF rs True])
      from label_image_byte [OF this, of r] obtain b :: u8 where
        "elem (rs ! i) r = of_nat (unat b) / 255" by blast
      with Cons True show ?thesis by (auto simp: stack_elem [OF st])
    next
      case False
      with Cons have "elem out ix = 0" by (simp add: stack_elem [OF st])
      with zero show ?thesis by metis
    qed
  qed
qed

lemma add_label_byte:
  assumes "add_label env img text os = Inr out"
  shows "\<exists>b :: u8. elem out ix = of_nat (unat b) / 255"
  using assms label_batch_byte
  by (auto simp: add_label_def Let_def split: sum.splits if_splits)

lemma nat_byte_range: "n \<le> 255 \<Longrightarrow> 0 \<le> (of_nat n / 255 :: rat) \<and> (of_nat n / 255 :: rat) \<le> 1"
  by simp

lemma byte_range: "0 \<le> (of_nat (unat (b :: u8)) / 255 :: rat) \<and> (of_nat (unat b) / 255 :: rat) \<le> 1"
  by (rule nat_byte_range [OF unat_u8_le])

lemma clamp01_range: "0 \<le> clamp01 v \<and> clamp01 v \<le> 1"
  by (simp add: clamp01_def)

lemma round_half_even_bounds:
  assumes "0 \<le> q" and "q \<le> 255"
  shows "0 \<le> round_half_even q \<and> round_half_even q \<le> 255"
proof -
  have f0: "0 \<le> \<lfloor>q\<rfloor>" using assms(1) by simp
  have f1: "\<lfloor>q\<rfloor> \<le> 255" using floor_mono [OF assms(2)] by simp
  have "\<lfloor>q\<rfloor> < 255 \<or> q - of_int \<lfloor>q\<rfloor> = 0"
  proof (cases "\<lfloor>q\<rfloor> = 255")
    case True
    then have "of_int \<lfloor>q\<rfloor> = (255 :: rat)" by simp
    moreover have "of_int \<lfloor>q\<rfloor> \<le> q" by simp
    ultimately have "q = 255" using assms(2) by linarith
    then show ?thesis by simp
  next
    case False
    with f1 have "\<lfloor>q\<rfloor> < 255" by linarith
    then show ?thesis by (rule disjI1)
  qed
  with f0 f1 show ?thesis
    by (auto simp: round_half_even_def Let_def)
qed

lemma to_u8_exact:
  "uint (to_u8 v) = round_half_even (clamp01 v * 255) \<and>
   0 \<le> round_half_even (clamp01 v * 255) \<and> round_half_even (clamp01 v * 255) \<le> 255"
proof -
  have "0 \<le> clamp01 v * 255" "clamp01 v * 255 \<le> 255"
    using clamp01_range [of v] by simp_all
  from round_half_even_bounds [OF this] have b:
    "0 \<le> round_half_even (clamp01 v * 255)" "round_half_even (clamp01 v * 255) \<le> 255"
    by simp_all
  then have "uint (word_of_int (round_half_even (clamp01 v * 255)) :: u8) =
      round_half_even (clamp01 v * 255)"
    by (simp add: uint_word_of_int take_bit_int_eq_self)
  with b show ?thesis by (simp add: to_u8_def)
qed

text \<open>
  C10.  Whatever the input tensor holds, every value of a returned batch is a byte
  divided by 255, so it lies in \<open>[0, 1]\<close>; on the way in, a value is clamped to
  \<open>[0, 1]\<close> before it is scaled and rounded, so the byte is the rounded value itself,
  between 0 and 255, without wrap-around.
\<close>

theorem output_in_unit_interval:
  "(add_label env img text os = Inr out \<longrightarrow>
      (\<exists>b :: u8. elem out ix = of_nat (unat b) / 255) \<and> 0 \<le> elem out ix \<and> elem out ix \<le> 1) \<and>
   0 \<le> clamp01 v \<and> clamp01 v \<le> 1 \<and>
   uint (to_u8 v) = round_half_even (clamp01 v * 255) \<and>
   0 \<le> round_half_even (clamp01 v * 255) \<and> round_half_even (clamp01 v * 255) \<le> 255"
proof -
  have "(\<exists>b :: u8. elem out ix = of_nat (unat b) / 255) \<and> 0 \<le> elem out ix \<and> elem out ix \<le> 1"
    if "add_label env img text os = Inr out"
  proof -
    from add_label_byte [OF that, of ix] obtain b :: u8 where b: "elem out ix = of_nat (unat b) / 255"
      by blast
    with byte_range [of b] show ?thesis by auto
  qed
  with clamp01_range [of v] to_u8_exact [of v] show ?thesis by blast
qed

subsection \<open>The pixels of a labelled image\<close>

lemma select_elem: "elem (select t i) ix = elem t (i # ix)"
  by (simp add: select_def)

lemma render_px:
  assumes "shape t = [H, W, 3]" and "rgba bc (1 / 2) = Inr fill" and "rgba tc 1 = Inr ink"
  shows "\<exists>im. render env font text os tc bc t = Inr im \<and> width im = W \<and> height im = H \<and>
           (\<forall>x y. px im x y =
              (let g = layout_of env font text os W H;
                   m = text_mask env font text (text_x g, text_y g) (int x) (int y);
                   under = composite env
                     (to_u8 (elem t [y, x, 0]), to_u8 (elem t [y, x, 1]), to_u8 (elem t [y, x, 2]), 255)
                     (if rounded_rectangle env (rect g) (radius g) (int x) (int y)
                      then ink_px fill else (0, 0, 0, 0))
               in if m = 0 then under else if m = 255 then ink_px ink
                  else blend env under (ink_px ink) m))"
proof -
  have sh: "shape (tensor_to_array t) = [H, W, 3]"
    using assms(1) by (simp add: tensor_to_array_def)
  have el: "elem (tensor_to_array t) ix = to_u8 (elem t ix)" for ix
    by (simp add: tensor_to_array_def)
  show ?thesis
    unfolding render_def fromarray_rgb [OF sh] el
    by (simp add: assms(2,3) Let_def draw_text_def alpha_composite_def
        draw_rounded_rectangle_def new_image_def)
qed

lemma py_int_alpha: "py_int (255 / 2) = 127" "py_int 255 = 255"
  by (simp_all add: py_int_def floor_unique)

lemma scheme_rgba:
  "rgba (snd (scheme_colours cs)) (1 / 2) =
     Inr (if cs = ''white_on_black'' then (0, 0, 0, 127) else (255, 255, 255, 127))"
  "rgba (fst (scheme_colours cs)) 1 =
     Inr (if cs = ''white_on_black'' then (255, 255, 255, 255) else (0, 0, 0, 255))"
  by (simp_all add: scheme_colours_def rgba_black rgba_white py_int_alpha)

lemma clip8_vals: "clip8 0 = 0" "clip8 127 = 127" "clip8 255 = 255"
  by (simp_all add: clip8_def)

lemma scheme_render_px:
  assumes "shape t = [H, W, 3]"
  shows "\<exists>im. render env font text os (fst (scheme_colours (color_scheme os)))
                 (snd (scheme_colours (color_scheme os))) t = Inr im \<and>
           width im = W \<and> height im = H \<and>
           (\<forall>x y. px im x y =
              (let g = layout_of env font text os W H;
                   m = text_mask env font text (text_x g, text_y g) (int x) (int y);
                   under = composite env
                     (to_u8 (elem t [y, x, 0]), to_u8 (elem t [y, x, 1]), to_u8 (elem t [y, x, 2]), 255)
                     (if rounded_rectangle env (rect g) (radius g) (int x) (int y)
                      then (if color_scheme os = ''white_on_black'' then (0, 0, 0, 127)
                            else (255, 255, 255, 127))
                      else (0, 0, 0, 0));
                   ink = (if color_scheme os = ''white_on_black'' then (255, 255, 255, 255)
                          else (0, 0, 0, 255))
               in if m = 0 then under else if m = 255 then ink else blend env under ink m))"
proof -
  let ?bc = "snd (scheme_colours (color_scheme os))" and ?tc = "fst (scheme_colours (color_scheme os))"
  let ?fill = "if color_scheme os = ''white_on_black'' then (0, 0, 0, 127) else (255, 255, 255, 127 :: int)"
  let ?ink = "if color_scheme os = ''white_on_black'' then (255, 255, 255, 255) else (0, 0, 0, 255 :: int)"
  have fill: "rgba ?bc (1 / 2) = Inr ?fill" and ink: "rgba ?tc 1 = Inr ?ink"
    by (simp_all add: scheme_rgba)
  have f8: "ink_px ?fill = (if color_scheme os = ''white_on_black'' then (0, 0, 0, 127)
                            else (255, 255, 255, 127))"
    and i8: "ink_px ?ink = (if color_scheme os = ''white_on_black'' then (255, 255, 255, 255)
                            else (0, 0, 0, 255))"
    by (simp_all add: ink_px_def clip8_vals)
  from render_px [OF assms fill ink, of env font "text" os]
  show ?thesis unfolding f8 i8 Let_def .
qed

lemma render_label_px:
  assumes "shape t = [H, W, 3]"
  shows "\<exists>im. render env font text os (fst (scheme_colours (color_scheme os)))
                 (snd (scheme_colours (color_scheme os))) t = Inr im \<and>
           width im = W \<and> height im = H \<and>
           (\<forall>x y. px im x y = label_px env font text os W H
              (to_u8 (elem t [y, x, 0]), to_u8 (elem t [y, x, 1]), to_u8 (elem t [y, x, 2]), 255) x y)"
  using scheme_render_px [OF assms, of env font "text" os]
  unfolding label_px_def .

lemma add_label_px:
  assumes "shape img = [N, H, W, 3]" and "i < N"
      and "load_font env (font_family os) (font_size os) = Inr font"
  shows "\<exists>out. add_label env img text os = Inr out \<and> shape out = [N, H, W, 3] \<and>
           (\<forall>y x c. elem out [i, y, x, c] =
              of_nat (unat (channel (label_px env font text os W H
                (to_u8 (elem img [i, y, x, 0]), to_u8 (elem img [i, y, x, 1]),
                 to_u8 (elem img [i, y, x, 2]), 255) x y) c)) / 255)"
proof -
  let ?tc = "fst (scheme_colours (color_scheme os))" and ?bc = "snd (scheme_colours (color_scheme os))"
  have pos: "0 < N" using assms(2) by simp
  from add_label_ok [OF assms(1) pos assms(3), of "text"] obtain out where
    out: "add_label env img text os = Inr out" "shape out = [N, H, W, 3]"
    and sel: "\<forall>j<N. label_image env font text os ?tc ?bc (select img j) = Inr (select out j)"
    by blast
  from sel assms(2) have li: "label_image env font text os ?tc ?bc (select img i) = Inr (select out i)"
    by blast
  have sh: "shape (select img i) = [H, W, 3]"
    by (rule select_shape [OF assms(1)])
  from render_label_px [OF sh, of env font "text" os] obtain im where
    im: "render env font text os ?tc ?bc (select img i) = Inr im"
    and pix: "\<And>x y. px im x y = label_px env font text os W H
              (to_u8 (elem (select img i) [y, x, 0]), to_u8 (elem (select img i) [y, x, 1]),
               to_u8 (elem (select img i) [y, x, 2]), 255) x y"
    by blast
  from li im have eq: "select out i = pil_to_tensor im"
    by (simp add: label_image_def)
  have "elem out [i, y, x, c] = of_nat (unat (channel (px im x y) c)) / 255" for y x c
  proof -
    have "elem out [i, y, x, c] = elem (select out i) [y, x, c]" by (simp add: select_elem)
    also have "\<dots> = of_nat (unat (channel (px im x y) c)) / 255"
      unfolding eq by (simp add: pil_to_tensor_def)
    finally show ?thesis .
  qed
  then have "\<forall>y x c. elem out [i, y, x, c] =
              of_nat (unat (channel (label_px env font text os W H
                (to_u8 (elem img [i, y, x, 0]), to_u8 (elem img [i, y, x, 1]),
                 to_u8 (elem img [i, y, x, 2]), 255) x y) c)) / 255"
    by (simp add: pix select_elem)
  with out show ?thesis by blast
qed

lemma label_px_text:
  assumes "text_mask env font text (text_x (layout_of env font text os w h),
             text_y (layout_of env font text os w h)) (int x) (int y) = 255"
  shows "label_px env font text os w h base x y =
           (if color_scheme os = ''white_on_black'' then (255, 255, 255, 255) else (0, 0, 0, 255))"
  using assms by (simp add: label_px_def Let_def)

lemma label_px_no_text:
  assumes "text_mask env font text (text_x (layout_of env font text os w h),
             text_y (layout_of env font text os w h)) (int x) (int y) = 0"
  shows "label_px env font text os w h base x y =
           composite env base
             (if rounded_rectangle env (rect (layout_of env font text os w h))
                   (radius (layout_of env font text os w h)) (int x) (int y)
              then (if color_scheme os = ''white_on_black'' then (0, 0, 0, 127)
                    else (255, 255, 255, 127))
              else (0, 0, 0, 0))"
  using assms by (simp add: label_px_def Let_def)

lemma channel_rgb: "c < 3 \<Longrightarrow> channel (f 0, f 1, f 2, a) c = f c"
proof -
  assume "c < 3"
  then have "c = 0 \<or> c = 1 \<or> c = 2" by arith
  then show ?thesis by (auto simp: channel_def)
qed

lemma channel_grey: "c < 3 \<Longrightarrow> channel (v, v, v, a) c = v"
  using channel_rgb [of c "\<lambda>_. v" a] by simp

lemma text_pixel_value:
  assumes "c < 3"
  shows "(of_nat (unat (channel (if cs = ''white_on_black'' then (255, 255, 255, 255)
                                 else (0, 0, 0, 255 :: u8)) c)) / 255 :: rat) =
         (if cs = ''white_on_black'' then 1 else 0)"
  by (simp add: channel_grey [OF assms])


lemma load_font_fallback:
  assumes "\<forall>p \<in> set (font_candidates env fam). isl (truetype env p sz)"
  shows "load_font env fam sz = Inr (load_default env)"
  unfolding load_font_def using assms by (rule load_loop_all_fail)

lemma add_label_text_pixel:
  assumes "shape img = [N, H, W, 3]" and "i < N" and "c < 3"
      and "load_font env (font_family os) (font_size os) = Inr font"
      and "text_mask env font text (text_x (layout_of env font text os W H),
             text_y (layout_of env font text os W H)) (int x) (int y) = 255"
  shows "\<exists>out. add_label env img text os = Inr out \<and> shape out = [N, H, W, 3] \<and>
           elem out [i, y, x, c] = (if color_scheme os = ''white_on_black'' then 1 else 0)"
proof -
  from add_label_px [OF assms(1,2,4), of "text"] obtain out where
    out: "add_label env img text os = Inr out" "shape out = [N, H, W, 3]"
    and el: "\<And>y x c. elem out [i, y, x, c] =
              of_nat (unat (channel (label_px env font text os W H
                (to_u8 (elem img [i, y, x, 0]), to_u8 (elem img [i, y, x, 1]),
                 to_u8 (elem img [i, y, x, 2]), 255) x y) c)) / 255"
    by blast
  have "elem out [i, y, x, c] = (if color_scheme os = ''white_on_black'' then 1 else 0)"
    unfolding el label_px_text [OF assms(5)] by (rule text_pixel_value [OF assms(3)])
  with out show ?thesis by blast
qed

subsection \<open>The rasteriser and the compositor\<close>

lemma fills_boxD:
  assumes "fills_box rr"
  shows "(rr (x0, y0, x1, y1) r x y \<longrightarrow> x0 \<le> x \<and> x \<le> x1 \<and> y0 \<le> y \<and> y \<le> y1) \<and>
        (x0 \<le> x \<and> x \<le> x1 \<and> y0 \<le> y \<and> y \<le> y1 \<and>
         (x0 + r < x \<and> x < x1 - r \<or> y0 + r < y \<and> y < y1 - r) \<longrightarrow>
           rr (x0, y0, x1, y1) r x y)"
  using assms unfolding fills_box_def
  apply (drule_tac x = x0 in spec)
  apply (drule_tac x = y0 in spec)
  apply (drule_tac x = x1 in spec)
  apply (drule_tac x = y1 in spec)
  apply (drule_tac x = r in spec)
  apply (drule_tac x = x in spec)
  apply (drule_tac x = y in spec)
  apply assumption
  done

lemma fills_box_inside:
  assumes "fills_box rr" and "rr (x0, y0, x1, y1) r x y"
  shows "x0 \<le> x \<and> x \<le> x1 \<and> y0 \<le> y \<and> y \<le> y1"
  using fills_boxD [OF assms(1), of x0 y0 x1 y1 r x y] assms(2) by (rule conjunct1 [THEN mp])

lemma fills_box_band:
  assumes "fills_box rr" and "x0 \<le> x" "x \<le> x1" "y0 \<le> y" "y \<le> y1"
      and "x0 + r < x \<and> x < x1 - r \<or> y0 + r < y \<and> y < y1 - r"
  shows "rr (x0, y0, x1, y1) r x y"
proof -
  from assms(2-6) have "x0 \<le> x \<and> x \<le> x1 \<and> y0 \<le> y \<and> y \<le> y1 \<and>
         (x0 + r < x \<and> x < x1 - r \<or> y0 + r < y \<and> y < y1 - r)"
    by (intro conjI)
  with fills_boxD [OF assms(1), of x0 y0 x1 y1 r x y] show ?thesis by (rule conjunct2 [THEN mp])
qed

lemma fills_box_row:
  assumes "fills_box rr" and "0 \<le> r" and "y0 + r < y" "y < y1 - r"
  shows "{x. rr (x0, y0, x1, y1) r x y} = {x0..x1}"
proof (rule set_eqI)
  fix x
  have y: "y0 \<le> y" "y \<le> y1" using assms(2,3,4) by linarith+
  have band: "x0 + r < x \<and> x < x1 - r \<or> y0 + r < y \<and> y < y1 - r"
    using assms(3,4) by simp
  have "rr (x0, y0, x1, y1) r x y \<longleftrightarrow> x0 \<le> x \<and> x \<le> x1"
  proof
    assume "rr (x0, y0, x1, y1) r x y"
    from fills_box_inside [OF assms(1) this] show "x0 \<le> x \<and> x \<le> x1" by simp
  next
    assume a: "x0 \<le> x \<and> x \<le> x1"
    show "rr (x0, y0, x1, y1) r x y"
      by (rule fills_box_band [OF assms(1) conjunct1 [OF a] conjunct2 [OF a] y band])
  qed
  then show "x \<in> {x. rr (x0, y0, x1, y1) r x y} \<longleftrightarrow> x \<in> {x0..x1}" by simp
qed

lemma fills_box_column:
  assumes "fills_box rr" and "0 \<le> r" and "x0 + r < x" "x < x1 - r"
  shows "{y. rr (x0, y0, x1, y1) r x y} = {y0..y1}"
proof (rule set_eqI)
  fix y
  have x: "x0 \<le> x" "x \<le> x1" using assms(2,3,4) by linarith+
  have band: "x0 + r < x \<and> x < x1 - r \<or> y0 + r < y \<and> y < y1 - r"
    using assms(3,4) by simp
  have "rr (x0, y0, x1, y1) r x y \<longleftrightarrow> y0 \<le> y \<and> y \<le> y1"
  proof
    assume "rr (x0, y0, x1, y1) r x y"
    from fills_box_inside [OF assms(1) this] show "y0 \<le> y \<and> y \<le> y1" by simp
  next
    assume a: "y0 \<le> y \<and> y \<le> y1"
    show "rr (x0, y0, x1, y1) r x y"
      by (rule fills_box_band [OF assms(1) x conjunct1 [OF a] conjunct2 [OF a] band])
  qed
  then show "y \<in> {y. rr (x0, y0, x1, y1) r x y} \<longleftrightarrow> y \<in> {y0..y1}" by simp
qed

lemma card_int_interval: "card {a..a + (n :: int)} = nat (n + 1)"
  by simp


lemma layout_of_fields:
  assumes "text_bbox env text font = (l, tp, r, b)"
  shows "box_w (layout_of env font text os W H) = (r - l) + 2 * padding os"
    and "box_h (layout_of env font text os W H) = (b - tp) + 2 * padding os"
    and "rect (layout_of env font text os W H) =
           (box_x (layout_of env font text os W H), box_y (layout_of env font text os W H),
            box_x (layout_of env font text os W H) + box_w (layout_of env font text os W H),
            box_y (layout_of env font text os W H) + box_h (layout_of env font text os W H))"
    and "0 \<le> radius (layout_of env font text os W H)"
  by (simp_all add: layout_of_def assms layout_fields layout_rect Let_def clamp_radius_nonneg)







subsection \<open>The drawn box\<close>

text \<open>
  C3, amended.  For a text measured as \<open>(l, t, r, b)\<close> the call on an image of shape
  \<open>[H, W, 3]\<close> returns an image of the same size; \<open>box_w\<close> and \<open>box_h\<close> are the
  measured width and height plus twice the padding, and they are the distances between
  the two corners handed to the rounded-rectangle call, for every placement and padding.
  As the rasteriser fills both corners, the drawn box is one pixel more in each
  direction: a row of the overlay between the rounded corners has \<open>box_w + 1\<close> filled
  pixels and a column \<open>box_h + 1\<close>.  On the returned image a pixel without text that
  lies between the two corners, both included, and outside the corner squares is the
  ink of the box composited over the input pixel, and a pixel without text outside the
  two corners is the transparent overlay composited over the input pixel.
\<close>

theorem drawn_box_size:
  assumes sh: "shape t = [H, W, 3]" and fb: "fills_box (rounded_rectangle env)"
      and bb: "text_bbox env text font = (l, tp, r, b)"
      and g: "layout_of env font text os W H = g"
  shows "\<exists>im. render env font text os (fst (scheme_colours (color_scheme os)))
                 (snd (scheme_colours (color_scheme os))) t = Inr im \<and>
           width im = W \<and> height im = H \<and>
           box_w g = (r - l) + 2 * padding os \<and> box_h g = (b - tp) + 2 * padding os \<and>
           rect g = (box_x g, box_y g, box_x g + box_w g, box_y g + box_h g) \<and>
           (\<forall>y. box_y g + radius g < y \<and> y < box_y g + box_h g - radius g \<longrightarrow>
              card {x. rounded_rectangle env (rect g) (radius g) x y} = nat (box_w g + 1)) \<and>
           (\<forall>x. box_x g + radius g < x \<and> x < box_x g + box_w g - radius g \<longrightarrow>
              card {y. rounded_rectangle env (rect g) (radius g) x y} = nat (box_h g + 1)) \<and>
           (\<forall>x y. x < W \<and> y < H \<and>
              text_mask env font text (text_x g, text_y g) (int x) (int y) = 0 \<and>
              box_x g \<le> int x \<and> int x \<le> box_x g + box_w g \<and>
              box_y g \<le> int y \<and> int y \<le> box_y g + box_h g \<and>
              (box_x g + radius g < int x \<and> int x < box_x g + box_w g - radius g \<or>
               box_y g + radius g < int y \<and> int y < box_y g + box_h g - radius g) \<longrightarrow>
              px im x y =
                composite env
                  (to_u8 (elem t [y, x, 0]), to_u8 (elem t [y, x, 1]), to_u8 (elem t [y, x, 2]), 255)
                  (if color_scheme os = ''white_on_black'' then (0, 0, 0, 127)
                   else (255, 255, 255, 127))) \<and>
           (\<forall>x y. x < W \<and> y < H \<and>
              text_mask env font text (text_x g, text_y g) (int x) (int y) = 0 \<and>
              \<not> (box_x g \<le> int x \<and> int x \<le> box_x g + box_w g \<and>
                 box_y g \<le> int y \<and> int y \<le> box_y g + box_h g) \<longrightarrow>
              px im x y =
                composite env
                  (to_u8 (elem t [y, x, 0]), to_u8 (elem t [y, x, 1]), to_u8 (elem t [y, x, 2]), 255)
                  (0, 0, 0, 0))"
proof -
  note lf = layout_of_fields [OF bb, of os W H, unfolded g]
  let ?base = "\<lambda>x y. (to_u8 (elem t [y, x, 0]), to_u8 (elem t [y, x, 1]), to_u8 (elem t [y, x, 2]), 255 :: u8)"
  let ?box = "if color_scheme os = ''white_on_black'' then (0, 0, 0, 127) else (255, 255, 255, 127 :: u8)"
  from render_label_px [OF sh, of env font "text" os] obtain im where
    im: "render env font text os (fst (scheme_colours (color_scheme os)))
           (snd (scheme_colours (color_scheme os))) t = Inr im" "width im = W" "height im = H"
    and pix: "\<And>x y. px im x y = label_px env font text os W H (?base x y) x y"
    by blast
  have nt: "px im x y = composite env (?base x y)
              (if rounded_rectangle env (rect g) (radius g) (int x) (int y) then ?box
               else (0, 0, 0, 0))"
    if "text_mask env font text (text_x g, text_y g) (int x) (int y) = 0" for x y
    unfolding pix
    by (rule label_px_no_text [of env font "text" os W H x y, unfolded g, OF that])
  have rows: "\<forall>y. box_y g + radius g < y \<and> y < box_y g + box_h g - radius g \<longrightarrow>
              card {x. rounded_rectangle env (rect g) (radius g) x y} = nat (box_w g + 1)"
  proof (intro allI impI)
    fix y assume "box_y g + radius g < y \<and> y < box_y g + box_h g - radius g"
    then have y: "box_y g + radius g < y" "y < box_y g + box_h g - radius g" by simp_all
    show "card {x. rounded_rectangle env (rect g) (radius g) x y} = nat (box_w g + 1)"
      unfolding lf(3) fills_box_row [OF fb lf(4) y] by (rule card_int_interval)
  qed
  have cols: "\<forall>x. box_x g + radius g < x \<and> x < box_x g + box_w g - radius g \<longrightarrow>
              card {y. rounded_rectangle env (rect g) (radius g) x y} = nat (box_h g + 1)"
  proof (intro allI impI)
    fix x assume "box_x g + radius g < x \<and> x < box_x g + box_w g - radius g"
    then have x: "box_x g + radius g < x" "x < box_x g + box_w g - radius g" by simp_all
    show "card {y. rounded_rectangle env (rect g) (radius g) x y} = nat (box_h g + 1)"
      unfolding lf(3) fills_box_column [OF fb lf(4) x] by (rule card_int_interval)
  qed
  have inside: "\<forall>x y. x < W \<and> y < H \<and>
              text_mask env font text (text_x g, text_y g) (int x) (int y) = 0 \<and>
              box_x g \<le> int x \<and> int x \<le> box_x g + box_w g \<and>
              box_y g \<le> int y \<and> int y \<le> box_y g + box_h g \<and>
              (box_x g + radius g < int x \<and> int x < box_x g + box_w g - radius g \<or>
               box_y g + radius g < int y \<and> int y < box_y g + box_h g - radius g) \<longrightarrow>
              px im x y = composite env (?base x y) ?box"
  proof (intro allI impI, elim conjE)
    fix x y
    assume m: "text_mask env font text (text_x g, text_y g) (int x) (int y) = 0"
      and bx: "box_x g \<le> int x" "int x \<le> box_x g + box_w g"
              "box_y g \<le> int y" "int y \<le> box_y g + box_h g"
      and band: "box_x g + radius g < int x \<and> int x < box_x g + box_w g - radius g \<or>
               box_y g + radius g < int y \<and> int y < box_y g + box_h g - radius g"
    have "rounded_rectangle env (rect g) (radius g) (int x) (int y)"
      unfolding lf(3) by (rule fills_box_band [OF fb bx band])
    then show "px im x y = composite env (?base x y) ?box"
      unfolding nt [OF m] by (simp only: if_True)
  qed
  have outside: "\<forall>x y. x < W \<and> y < H \<and>
              text_mask env font text (text_x g, text_y g) (int x) (int y) = 0 \<and>
              \<not> (box_x g \<le> int x \<and> int x \<le> box_x g + box_w g \<and>
                 box_y g \<le> int y \<and> int y \<le> box_y g + box_h g) \<longrightarrow>
              px im x y = composite env (?base x y) (0, 0, 0, 0)"
  proof (intro allI impI, elim conjE)
    fix x y
    assume m: "text_mask env font text (text_x g, text_y g) (int x) (int y) = 0"
      and out: "\<not> (box_x g \<le> int x \<and> int x \<le> box_x g + box_w g \<and>
                 box_y g \<le> int y \<and> int y \<le> box_y g + box_h g)"
    have "\<not> rounded_rectangle env (rect g) (radius g) (int x) (int y)"
    proof
      assume "rounded_rectangle env (rect g) (radius g) (int x) (int y)"
      then have "rounded_rectangle env (box_x g, box_y g, box_x g + box_w g, box_y g + box_h g)
                   (radius g) (int x) (int y)"
        unfolding lf(3) .
      from fills_box_inside [OF fb this] out show False by (rule notE [rotated])
    qed
    then show "px im x y = composite env (?base x y) (0, 0, 0, 0)"
      unfolding nt [OF m] by (simp only: if_False)
  qed
  from im lf(1,2,3) rows cols inside outside show ?thesis
    apply -
    apply (rule exI [of _ im])
    apply (intro conjI)
    apply assumption+
    done
qed

subsection \<open>The blend of the box and the ink of the text\<close>


subsection \<open>Font loading\<close>

text \<open>
  C6.  Loading a font always returns a font: the candidates are tried in order, the
  first that loads is the result, and when every candidate raises the result is the
  built-in font.  Then \<open>add_label\<close> runs as it does with the built-in font, on a
  batch of \<open>N \<ge> 1\<close> images it returns the batch of the images labelled in that font,
  and every pixel that the glyphs of the built-in font cover, for the text drawn at the
  text origin of the layout, has the colour of the text in the returned batch.
\<close>

theorem font_loading_never_fails:
  "(\<exists>f. load_font env fam sz = Inr f) \<and>
   ((\<forall>p \<in> set (font_candidates env fam). isl (truetype env p sz)) \<longrightarrow>
      load_font env fam sz = Inr (load_default env)) \<and>
   (\<forall>qs p ps f. font_candidates env fam = qs @ p # ps \<and>
        (\<forall>q \<in> set qs. isl (truetype env q sz)) \<and> truetype env p sz = Inr f \<longrightarrow>
        load_font env fam sz = Inr f) \<and>
   ((\<forall>p \<in> set (font_candidates env (font_family os)). isl (truetype env p (font_size os))) \<longrightarrow>
      add_label env img text os =
        label_batch env (load_default env) (if dim img = 3 then unsqueeze0 img else img) text os) \<and>
   ((\<forall>p \<in> set (font_candidates env (font_family os)). isl (truetype env p (font_size os))) \<and>
      shape img = [N, H, W, 3] \<and> 0 < N \<longrightarrow>
      (\<exists>out. add_label env img text os = Inr out \<and> shape out = [N, H, W, 3] \<and>
         (\<forall>i<N. label_image env (load_default env) text os (fst (scheme_colours (color_scheme os)))
                   (snd (scheme_colours (color_scheme os))) (select img i) = Inr (select out i)))) \<and>
   ((\<forall>p \<in> set (font_candidates env (font_family os)). isl (truetype env p (font_size os))) \<and>
      shape img = [N, H, W, 3] \<and> i < N \<and> y < H \<and> x < W \<and> c < 3 \<and>
      text_mask env (load_default env) text
        (text_x (layout_of env (load_default env) text os W H),
         text_y (layout_of env (load_default env) text os W H)) (int x) (int y) = 255 \<longrightarrow>
      (\<exists>out. add_label env img text os = Inr out \<and> shape out = [N, H, W, 3] \<and>
         elem out [i, y, x, c] = (if color_scheme os = ''white_on_black'' then 1 else 0)))"
proof -
  have total: "\<exists>f. load_font env fam sz = Inr f" by (rule load_font_total)
  have fallback: "load_font env fam' sz' = Inr (load_default env)"
    if "\<forall>p \<in> set (font_candidates env fam'). isl (truetype env p sz')" for fam' sz'
    using that by (rule load_font_fallback)
  have first: "load_font env fam sz = Inr f"
    if "font_candidates env fam = qs @ p # ps" "\<forall>q \<in> set qs. isl (truetype env q sz)"
       "truetype env p sz = Inr f" for qs p ps f
    unfolding load_font_def that(1) using that(2,3) by (rule load_loop_first)
  have run: "add_label env img text os =
        label_batch env (load_default env) (if dim img = 3 then unsqueeze0 img else img) text os"
    if "\<forall>p \<in> set (font_candidates env (font_family os)). isl (truetype env p (font_size os))"
    using fallback [OF that] by (simp add: add_label_def)
  have out: "\<exists>out. add_label env img text os = Inr out \<and> shape out = [N, H, W, 3] \<and>
         (\<forall>i<N. label_image env (load_default env) text os (fst (scheme_colours (color_scheme os)))
                   (snd (scheme_colours (color_scheme os))) (select img i) = Inr (select out i))"
    if "\<forall>p \<in> set (font_candidates env (font_family os)). isl (truetype env p (font_size os))"
       "shape img = [N, H, W, 3]" "0 < N"
    by (rule add_label_ok [OF that(2,3) fallback [OF that(1)]])
  have ink: "\<exists>out. add_label env img text os = Inr out \<and> shape out = [N, H, W, 3] \<and>
         elem out [i, y, x, c] = (if color_scheme os = ''white_on_black'' then 1 else 0)"
    if "\<forall>p \<in> set (font_candidates env (font_family os)). isl (truetype env p (font_size os))"
       "shape img = [N, H, W, 3]" "i < N" "c < 3"
       "text_mask env (load_default env) text
          (text_x (layout_of env (load_default env) text os W H),
           text_y (layout_of env (load_default env) text os W H)) (int x) (int y) = 255"
    by (rule add_label_text_pixel [OF that(2,3,4) fallback [OF that(1)] that(5)])
  from total fallback first run out ink show ?thesis by blast
qed

subsection \<open>The store\<close>

lemma extends_refl: "extends s s"
  by (simp add: extends_def)

lemma extends_trans: "extends s s' \<Longrightarrow> extends s' s'' \<Longrightarrow> extends s s''"
  by (auto simp: extends_def)

lemma extends_alloc: "alloc v s = (p, s') \<Longrightarrow> extends s s' \<and> p = next_free s \<and> next_free s' = Suc p \<and> cells s' p = Some v"
  by (auto simp: alloc_def extends_def)

lemma label_image_st_extends:
  "extends s (snd (label_image_st env font text os tc bc r s))"
  by (auto simp: label_image_st_def alloc_def modify_img_def extends_def Let_def
      split: option.splits sum.splits prod.splits)

lemma label_image_st_result:
  assumes "label_image_st env font text os tc bc r s = (Inr p, s')"
  shows "next_free s \<le> p \<and> p < next_free s'"
  using assms
  by (auto simp: label_image_st_def alloc_def modify_img_def Let_def
      split: option.splits sum.splits prod.splits)

lemma label_image_st_refines:
  assumes "deref s r = Some t"
  shows "(\<forall>e. fst (label_image_st env font text os tc bc r s) = Inl e \<longleftrightarrow>
            label_image env font text os tc bc t = Inl e) \<and>
         (\<forall>p. fst (label_image_st env font text os tc bc r s) = Inr p \<longrightarrow>
            (\<exists>out. label_image env font text os tc bc t = Inr out \<and>
               cells (snd (label_image_st env font text os tc bc r s)) p = Some (Tensor out)))"
  using assms
  by (auto simp: label_image_st_def label_image_def render_def alloc_def modify_img_def
      get_img_def Let_def new_image_def
      split: option.splits sum.splits prod.splits)

lemma extends_cell: "extends s s' \<Longrightarrow> a < next_free s \<Longrightarrow> cells s' a = cells s a"
  by (simp add: extends_def)

lemma extends_next: "extends s s' \<Longrightarrow> next_free s \<le> next_free s'"
  by (simp add: extends_def)

lemma label_loop_st_extends:
  assumes "\<And>i s. extends s (snd (f i s))"
  shows "extends s (snd (label_loop_st f js s))"
proof (induction js arbitrary: s)
  case Nil
  show ?case by (simp add: extends_refl)
next
  case (Cons i js)
  obtain x s1 where f: "f i s = (x, s1)" by (cases "f i s")
  have e1: "extends s s1" using assms [of s i] f by simp
  show ?case
  proof (cases x)
    case (Inl e)
    then show ?thesis using f e1 by simp
  next
    case (Inr p)
    obtain z s2 where l: "label_loop_st f js s1 = (z, s2)" by (cases "label_loop_st f js s1")
    have "extends s1 s2" using Cons.IH [of s1] l by simp
    with e1 have "extends s s2" by (rule extends_trans)
    then show ?thesis using f Inr l by (cases z) simp_all
  qed
qed

lemma deref_index:
  assumes "cells s a = Some (Tensor t0)"
  shows "deref s (a, Index i v) = Some (select (view_of v t0) i)"
  using assms by (simp add: deref_def)

lemma label_loop_st_refines:
  assumes "cells s a = Some (Tensor t0)" and "a < next_free s"
  shows "(\<forall>e. fst (label_loop_st (\<lambda>i. label_image_st env font text os tc bc (a, Index i v)) js s) = Inl e \<longleftrightarrow>
            label_loop (\<lambda>i. label_image env font text os tc bc (select (view_of v t0) i)) js = Inl e) \<and>
         (\<forall>ps. fst (label_loop_st (\<lambda>i. label_image_st env font text os tc bc (a, Index i v)) js s) = Inr ps \<longrightarrow>
            label_loop (\<lambda>i. label_image env font text os tc bc (select (view_of v t0) i)) js =
              Inr (map (get_tensor
                (snd (label_loop_st (\<lambda>i. label_image_st env font text os tc bc (a, Index i v)) js s))) ps) \<and>
            (\<forall>p \<in> set ps. p <
                next_free (snd (label_loop_st (\<lambda>i. label_image_st env font text os tc bc (a, Index i v)) js s))))"
  using assms
proof (induction js arbitrary: s)
  case Nil
  show ?case by simp
next
  case (Cons i js)
  let ?F = "\<lambda>i. label_image_st env font text os tc bc (a, Index i v)"
  let ?G = "\<lambda>i. label_image env font text os tc bc (select (view_of v t0) i)"
  obtain x s1 where f: "?F i s = (x, s1)" by (cases "?F i s")
  have e1: "extends s s1" using label_image_st_extends [of s env font "text" os tc bc "(a, Index i v)"] f
    by simp
  have a1: "cells s1 a = Some (Tensor t0)" "a < next_free s1"
    using extends_cell [OF e1 Cons.prems(2)] Cons.prems extends_next [OF e1] by simp_all
  note ref = label_image_st_refines [OF deref_index [OF Cons.prems(1), of i v], of env font "text" os tc bc]
  show ?case
  proof (cases x)
    case (Inl e)
    with ref f have "?G i = Inl e" by auto
    then show ?thesis using f Inl by simp
  next
    case (Inr p)
    with ref f obtain out where out: "?G i = Inr out" "cells s1 p = Some (Tensor out)"
      by auto
    have p1: "p < next_free s1" using label_image_st_result [of env font "text" os tc bc "(a, Index i v)" s p s1] f Inr
      by simp
    obtain z s2 where l: "label_loop_st ?F js s1 = (z, s2)" by (cases "label_loop_st ?F js s1")
    have e2: "extends s1 s2"
      using label_loop_st_extends [of ?F s1 js, OF label_image_st_extends] l by simp
    have p2: "cells s2 p = Some (Tensor out)" "p < next_free s2"
      using extends_cell [OF e2 p1] out(2) extends_next [OF e2] p1 by simp_all
    note ih = Cons.IH [OF a1]
    show ?thesis
    proof (cases z)
      case (Inl e)
      with ih l have "label_loop ?G js = Inl e" by auto
      then show ?thesis using f Inr l Inl out by simp
    next
      case r: (Inr ps)
      with ih l have g: "label_loop ?G js = Inr (map (get_tensor s2) ps)"
        and lt: "\<forall>q \<in> set ps. q < next_free s2" by auto
      show ?thesis using f Inr l r out g lt p2 by (simp add: get_tensor_def)
    qed
  qed
qed

lemma label_batch_st_extends: "extends s (snd (label_batch_st env font r text os s))"
proof -
  obtain tc bc where sc: "scheme_colours (color_scheme os) = (tc, bc)"
    by (cases "scheme_colours (color_scheme os)")
  let ?F = "\<lambda>i. label_image_st env font text os tc bc (fst r, Index i (snd r))"
  show ?thesis
  proof (cases "deref s r")
    case None
    then show ?thesis by (simp add: label_batch_st_def sc extends_refl)
  next
    case (Some img)
    show ?thesis
    proof (cases "shape img")
      case Nil
      with Some show ?thesis by (simp add: label_batch_st_def sc extends_refl)
    next
      case (Cons n rest)
      obtain z s1 where l: "label_loop_st ?F [0..<n] s = (z, s1)"
        by (cases "label_loop_st ?F [0..<n] s")
      have e1: "extends s s1"
        using label_loop_st_extends [of ?F s "[0..<n]", OF label_image_st_extends] l by simp
      show ?thesis
      proof (cases z)
        case (Inl e)
        with Some Cons l e1 show ?thesis by (simp add: label_batch_st_def sc)
      next
        case (Inr out)
        show ?thesis
        proof (cases "stack (map (get_tensor s1) out)")
          case (Inl e)
          with Some Cons l Inr e1 show ?thesis by (simp add: label_batch_st_def sc)
        next
          case t: (Inr t)
          obtain p s2 where al: "alloc (Tensor t) s1 = (p, s2)" by (cases "alloc (Tensor t) s1")
          from extends_alloc [OF al] e1 have "extends s s2" by (blast intro: extends_trans)
          with Some Cons l Inr t al show ?thesis by (simp add: label_batch_st_def sc)
        qed
      qed
    qed
  qed
qed

lemma label_batch_st_refines:
  assumes "cells s a = Some (Tensor t0)" and "a < next_free s"
  shows "(\<forall>e. fst (label_batch_st env font (a, v) text os s) = Inl e \<longleftrightarrow>
            label_batch env font (view_of v t0) text os = Inl e) \<and>
         (\<forall>p. fst (label_batch_st env font (a, v) text os s) = Inr p \<longrightarrow>
            next_free s \<le> p \<and>
            (\<exists>out. label_batch env font (view_of v t0) text os = Inr out \<and>
               cells (snd (label_batch_st env font (a, v) text os s)) p = Some (Tensor out)))"
proof -
  obtain tc bc where sc: "scheme_colours (color_scheme os) = (tc, bc)"
    by (cases "scheme_colours (color_scheme os)")
  let ?F = "\<lambda>i. label_image_st env font text os tc bc (a, Index i v)"
  let ?G = "\<lambda>i. label_image env font text os tc bc (select (view_of v t0) i)"
  have d: "deref s (a, v) = Some (view_of v t0)" using assms(1) by (simp add: deref_def)
  show ?thesis
  proof (cases "shape (view_of v t0)")
    case Nil
    with d show ?thesis by (simp add: label_batch_st_def label_batch_def sc)
  next
    case (Cons n rest)
    obtain z s1 where l: "label_loop_st ?F [0..<n] s = (z, s1)"
      by (cases "label_loop_st ?F [0..<n] s")
    have e1: "extends s s1"
      using label_loop_st_extends [of ?F s "[0..<n]", OF label_image_st_extends] l by simp
    note ref = label_loop_st_refines [OF assms, of env font "text" os tc bc v "[0..<n]"]
    show ?thesis
    proof (cases z)
      case (Inl e)
      with ref l have "label_loop ?G [0..<n] = Inl e" by auto
      with d Cons l Inl show ?thesis by (simp add: label_batch_st_def label_batch_def sc)
    next
      case (Inr out)
      with ref l have g: "label_loop ?G [0..<n] = Inr (map (get_tensor s1) out)" by auto
      show ?thesis
      proof (cases "stack (map (get_tensor s1) out)")
        case (Inl e)
        with d Cons l Inr g show ?thesis by (simp add: label_batch_st_def label_batch_def sc)
      next
        case t: (Inr t)
        obtain p s2 where al: "alloc (Tensor t) s1 = (p, s2)" by (cases "alloc (Tensor t) s1")
        from extends_alloc [OF al] extends_next [OF e1]
        have "next_free s \<le> p" "cells s2 p = Some (Tensor t)" by auto
        with d Cons l Inr g t al show ?thesis
          by (simp add: label_batch_st_def label_batch_def sc)
      qed
    qed
  qed
qed

lemma add_label_st_extends: "extends s (snd (add_label_st env r text os s))"
  by (auto simp: add_label_st_def extends_refl label_batch_st_extends Let_def
      split: option.splits sum.splits)

lemma derefD:
  assumes "deref s r = Some img"
  obtains t0 where "cells s (fst r) = Some (Tensor t0)" and "img = view_of (snd r) t0"
  using assms by (auto simp: deref_def split: option.splits obj.splits)

lemma add_label_st_refines:
  assumes "cells s a = Some (Tensor t0)" and "a < next_free s"
  shows "(\<forall>e. fst (add_label_st env (a, v) text os s) = Inl e \<longleftrightarrow>
            add_label env (view_of v t0) text os = Inl e) \<and>
         (\<forall>p. fst (add_label_st env (a, v) text os s) = Inr p \<longrightarrow>
            next_free s \<le> p \<and>
            (\<exists>out. add_label env (view_of v t0) text os = Inr out \<and>
               cells (snd (add_label_st env (a, v) text os s)) p = Some (Tensor out)))"
proof -
  have d: "deref s (a, v) = Some (view_of v t0)" using assms(1) by (simp add: deref_def)
  show ?thesis
  proof (cases "load_font env (font_family os) (font_size os)")
    case (Inl e)
    with d show ?thesis by (simp add: add_label_st_def add_label_def Let_def)
  next
    case (Inr font)
    show ?thesis
    proof (cases "dim (view_of v t0) = 3")
      case True
      with d Inr label_batch_st_refines [OF assms, of env font "Unsqueeze v" "text" os]
      show ?thesis by (simp add: add_label_st_def add_label_def Let_def)
    next
      case False
      with d Inr label_batch_st_refines [OF assms, of env font v "text" os]
      show ?thesis by (simp add: add_label_st_def add_label_def Let_def)
    qed
  qed
qed

text \<open>
  C8.  On a store in which every object lies below the next free address, a call of
  \<open>add_label\<close> on a view of a stored tensor leaves every object of the store as it
  was, whether it returns or raises; in particular the tensor passed in reads as
  before.  It raises what the function on values raises, and when it returns, the
  result is at an address that held no object before and is the tensor that the
  function on values returns.  The platform, the home directory and the font files
  are read through the environment, which a call cannot change.
\<close>

theorem add_label_leaves_store:
  assumes wf: "dom (cells s) \<subseteq> {..<next_free s}" and inp: "deref s r = Some img"
      and run: "add_label_st env r text os s = (res, s')"
  shows "(\<forall>a \<in> dom (cells s). cells s' a = cells s a) \<and>
         deref s' r = Some img \<and>
         (\<forall>e. res = Inl e \<longleftrightarrow> add_label env img text os = Inl e) \<and>
         (\<forall>p. res = Inr p \<longrightarrow> p \<notin> dom (cells s) \<and>
            (\<exists>out. add_label env img text os = Inr out \<and> cells s' p = Some (Tensor out)))"
proof -
  from inp obtain t0 where t0: "cells s (fst r) = Some (Tensor t0)" and img: "img = view_of (snd r) t0"
    by (rule derefD)
  have lt: "a < next_free s" if "a \<in> dom (cells s)" for a using wf that by auto
  have a: "fst r < next_free s" using t0 by (intro lt) auto
  have ext: "extends s s'" using add_label_st_extends [of s env r "text" os] run by simp
  have frame: "\<forall>a \<in> dom (cells s). cells s' a = cells s a"
    using extends_cell [OF ext] lt by blast
  have d': "deref s' r = Some img"
    using extends_cell [OF ext a] t0 img by (simp add: deref_def)
  from add_label_st_refines [OF t0 a, of env "snd r" "text" os] run img
  have errs: "\<forall>e. res = Inl e \<longleftrightarrow> add_label env img text os = Inl e"
    and ok: "\<forall>p. res = Inr p \<longrightarrow> next_free s \<le> p \<and>
            (\<exists>out. add_label env img text os = Inr out \<and> cells s' p = Some (Tensor out))"
    by simp_all
  have fresh: "\<forall>p. res = Inr p \<longrightarrow> p \<notin> dom (cells s) \<and>
            (\<exists>out. add_label env img text os = Inr out \<and> cells s' p = Some (Tensor out))"
  proof (intro allI impI)
    fix p assume "res = Inr p"
    with ok have p: "next_free s \<le> p"
      and o: "\<exists>out. add_label env img text os = Inr out \<and> cells s' p = Some (Tensor out)"
      by blast+
    from p lt [of p] have "p \<notin> dom (cells s)" by auto
    with o show "p \<notin> dom (cells s) \<and>
            (\<exists>out. add_label env img text os = Inr out \<and> cells s' p = Some (Tensor out))"
      by blast
  qed
  from frame d' errs fresh show ?thesis by (intro conjI)
qed

subsection \<open>Runs on the sample environment\<close>

lemma lower_Linux: "lower ''Linux'' = ''linux''"
  by code_simp

lemma sample_candidates_Arial:
  "font_candidates (sample_env inst) ''Arial'' =
     [''Arial.ttf'', ''arial.ttf'', ''/Library/Fonts/Arial.ttf'',
      ''C:'' @ CHR 0x5C # ''Windows'' @ CHR 0x5C # ''Fonts'' @ CHR 0x5C # ''arial.ttf'',
      ''/usr/share/fonts/truetype/msttcorefonts/Arial.ttf'',
      ''/home/user/.fonts/DejaVuSansMono.ttf'',
      ''/home/user/.local/share/fonts/DejaVuSansMono.ttf'']"
  by (simp add: font_candidates_def sample_env_def lower_Linux path_join_def)

lemma sample_fields:
  "rounded_rectangle (sample_env inst) (x0, y0, x1, y1) r x y \<longleftrightarrow> x0 \<le> x \<and> x \<le> x1 \<and> y0 \<le> y \<and> y \<le> y1"
  "text_mask (sample_env inst) f s (tx, ty) x y = (if x = tx \<and> y = ty + 2 then 255 else 0)"
  "composite (sample_env inst) = over_nearest"
  "load_default (sample_env inst) = 10"
  by (simp_all add: sample_env_def)

lemma sample_text_bbox: "text_bbox (sample_env inst) ''HI'' f = (0, 2, 12, 11)"
  by (simp add: text_bbox_def sample_env_def)

lemma sample_layout_default:
  "layout_of (sample_env inst) f ''HI'' default_opts 100 100 =
     \<lparr> box_w = 42, box_h = 39, box_x = 30, box_y = 30, radius = 15,
       rect = (30, 30, 72, 69), text_x = 45, text_y = 43 \<rparr>"
  by (simp add: layout_of_def sample_text_bbox default_opts_def label_layout_def place_xy_def
      clamp_radius_def py_int_def Let_def)

lemma sample_layout_example:
  "layout_of (sample_env inst) f ''HI'' example_opts 100 100 =
     \<lparr> box_w = 32, box_h = 29, box_x = 0, box_y = 0, radius = 0,
       rect = (0, 0, 32, 29), text_x = 10, text_y = 8 \<rparr>"
  by (simp add: layout_of_def sample_text_bbox example_opts_def label_layout_def place_xy_def
      clamp_radius_def py_int_def Let_def)

lemma sample_load_example_opts:
  "load_font (sample_env []) (font_family example_opts) (font_size example_opts) = Inr 10"
  by (simp add: load_font_def example_opts_def sample_candidates_Arial) (simp add: sample_env_def)

lemma to_u8_fifth: "to_u8 (1 / 5) = 51"
  by (simp add: to_u8_def clamp01_def round_half_even_def)

lemma over_nearest_samples:
  "over_nearest (51, 51, 51, 255) (255, 255, 255, 127) = (153, 153, 153, 255)"
  "over_nearest (51, 51, 51, 255) (0, 0, 0, 0) = (51, 51, 51, 255)"
  by code_simp+

lemma fills_box_sample: "fills_box (rounded_rectangle (sample_env inst))"
  by (simp add: fills_box_def sample_fields)




lemma sample_load_default_opts: "load_font (sample_env []) (font_family default_opts) (font_size default_opts) = Inr 10"
  by (simp add: load_font_def default_opts_def sample_candidates_Arial) (simp add: sample_env_def)

theorem add_label_batch_witness:
  "\<exists>out font. load_font (sample_env []) (font_family default_opts) (font_size default_opts) = Inr font \<and>
     add_label (sample_env []) (solid [2, 4, 5, 3] (1 / 5)) ''HI'' default_opts = Inr out \<and>
     shape out = [2, 4, 5, 3]"
proof -
  have sh: "shape (solid [2, 4, 5, 3] (1 / 5)) = [2, 4, 5, 3]" by (simp add: solid_def)
  have pos: "(0 :: nat) < 2" by simp
  from add_label_batch [OF sh pos, of "sample_env []" default_opts "''HI''"]
  show ?thesis by blast
qed

text \<open>
  C1 as stated fails on a batch of no image: the loop appends nothing and
  \<open>torch.stack\<close> raises on the empty list, so no batch is returned.
\<close>

theorem add_label_empty_batch_raises:
  "add_label (sample_env []) (solid [0, 4, 5, 3] 1) ''HI'' default_opts = Inl RuntimeError"
  by (simp add: add_label_def dim_def solid_def sample_load_default_opts label_batch_def
      stack_def split: prod.splits)

theorem single_image_is_batch_of_one_witness:
  "add_label (sample_env []) (solid [4, 5, 3] (7 / 2)) ''HI'' default_opts =
     add_label (sample_env []) (unsqueeze0 (solid [4, 5, 3] (7 / 2))) ''HI'' default_opts \<and>
   (\<exists>out. add_label (sample_env []) (solid [4, 5, 3] (7 / 2)) ''HI'' default_opts = Inr out \<and>
      shape out = [1, 4, 5, 3])"
proof -
  have sh: "shape (solid [4, 5, 3] (7 / 2)) = [4, 5, 3]" by (simp add: solid_def)
  from single_image_is_batch_of_one [OF sh, of "sample_env []" "''HI''" default_opts]
  show ?thesis by blast
qed

lemma to_u8_samples: "clamp01 (7 / 2) = 1" "clamp01 (- 2) = 0"
  by (simp_all add: clamp01_def)

theorem output_in_unit_interval_witness:
  "\<exists>out. add_label (sample_env []) (solid [1, 4, 5, 3] (7 / 2)) ''HI'' default_opts = Inr out \<and>
     0 \<le> elem out [0, 1, 2, 0] \<and> elem out [0, 1, 2, 0] \<le> 1 \<and>
     uint (to_u8 (7 / 2)) = round_half_even (1 * 255)"
proof -
  have sh: "shape (solid [1, 4, 5, 3] (7 / 2)) = [1, 4, 5, 3]" by (simp add: solid_def)
  have pos: "(0 :: nat) < 1" by simp
  from add_label_ok [OF sh pos sample_load_default_opts, of "''HI''"] obtain out where
    out: "add_label (sample_env []) (solid [1, 4, 5, 3] (7 / 2)) ''HI'' default_opts = Inr out"
    by blast
  from output_in_unit_interval [of "sample_env []" "solid [1, 4, 5, 3] (7 / 2)" "''HI''" default_opts
      out "[0, 1, 2, 0]" "7 / 2"] out
  have "0 \<le> elem out [0, 1, 2, 0] \<and> elem out [0, 1, 2, 0] \<le> 1 \<and>
     uint (to_u8 (7 / 2)) = round_half_even (clamp01 (7 / 2) * 255)"
    by blast
  with out show ?thesis by (auto simp only: to_u8_samples)
qed

theorem font_loading_never_fails_witness:
  "load_font (sample_env []) ''Arial'' 30 = Inr 10 \<and>
   load_font (sample_env [''/home/user/.fonts/DejaVuSansMono.ttf'']) ''Arial'' 30 = Inr 30 \<and>
   (\<exists>out. add_label (sample_env []) (solid [2, 100, 100, 3] 1) ''HI'' default_opts = Inr out \<and>
          shape out = [2, 100, 100, 3] \<and> elem out [1, 45, 45, 0] = 0 \<and>
          elem out [1, 45, 45, 1] = 0 \<and> elem out [1, 45, 45, 2] = 0)"
proof -
  let ?img = "solid [2, 100, 100, 3] 1"
  have fail: "\<forall>p \<in> set (font_candidates (sample_env []) ''Arial''). isl (truetype (sample_env []) p 30)"
    by (simp add: sample_env_def)
  have pos: "(0 :: nat) < 2" by simp
  have fail': "\<forall>p \<in> set (font_candidates (sample_env []) (font_family default_opts)).
      isl (truetype (sample_env []) p (font_size default_opts))"
    by (simp add: sample_env_def)
  have cand: "font_candidates (sample_env [''/home/user/.fonts/DejaVuSansMono.ttf'']) ''Arial'' =
      [''Arial.ttf'', ''arial.ttf'', ''/Library/Fonts/Arial.ttf'',
       ''C:'' @ CHR 0x5C # ''Windows'' @ CHR 0x5C # ''Fonts'' @ CHR 0x5C # ''arial.ttf'',
       ''/usr/share/fonts/truetype/msttcorefonts/Arial.ttf''] @
      ''/home/user/.fonts/DejaVuSansMono.ttf'' # [''/home/user/.local/share/fonts/DejaVuSansMono.ttf'']"
    by (simp add: sample_candidates_Arial)
  have before: "\<forall>q \<in> set [''Arial.ttf'', ''arial.ttf'', ''/Library/Fonts/Arial.ttf'',
       ''C:'' @ CHR 0x5C # ''Windows'' @ CHR 0x5C # ''Fonts'' @ CHR 0x5C # ''arial.ttf'',
       ''/usr/share/fonts/truetype/msttcorefonts/Arial.ttf''].
      isl (truetype (sample_env [''/home/user/.fonts/DejaVuSansMono.ttf'']) q 30)"
    by (simp add: sample_env_def)
  have hit: "truetype (sample_env [''/home/user/.fonts/DejaVuSansMono.ttf''])
      ''/home/user/.fonts/DejaVuSansMono.ttf'' 30 = Inr 30"
    by (simp add: sample_env_def)
  have sh: "shape ?img = [2, 100, 100, 3]" by (simp add: solid_def)
  have mask: "text_mask (sample_env []) (load_default (sample_env [])) ''HI''
        (text_x (layout_of (sample_env []) (load_default (sample_env [])) ''HI'' default_opts 100 100),
         text_y (layout_of (sample_env []) (load_default (sample_env [])) ''HI'' default_opts 100 100))
        (int 45) (int 45) = 255"
    by (simp add: sample_layout_default sample_fields)
  have cs: "color_scheme default_opts \<noteq> ''white_on_black''" by (simp add: default_opts_def)
  have idx: "(1 :: nat) < 2" "(45 :: nat) < 100" "(0 :: nat) < 3" "(1 :: nat) < 3" "(2 :: nat) < 3"
    by simp_all
  note a = font_loading_never_fails [of "sample_env []" "''Arial''" 30 default_opts
      ?img "''HI''" 2 100 100 1 45 45]
  note b = font_loading_never_fails [of "sample_env [''/home/user/.fonts/DejaVuSansMono.ttf'']"
      "''Arial''" 30 default_opts ?img "''HI''" 2 100 100 1 45 45 0]
  have one: "load_font (sample_env []) ''Arial'' 30 = Inr 10"
    using a [of 0] fail by (simp add: sample_env_def)
  have two: "load_font (sample_env [''/home/user/.fonts/DejaVuSansMono.ttf'']) ''Arial'' 30 = Inr 30"
    using b cand before hit by blast
  have px: "\<exists>out. add_label (sample_env []) ?img ''HI'' default_opts = Inr out \<and>
          shape out = [2, 100, 100, 3] \<and> elem out [1, 45, 45, c] = 0" if "c < 3" for c
  proof -
    note last = a [of c, THEN conjunct2, THEN conjunct2, THEN conjunct2, THEN conjunct2,
        THEN conjunct2]
    from last fail' sh idx(1,2) that mask
    have "\<exists>out. add_label (sample_env []) ?img ''HI'' default_opts = Inr out \<and>
          shape out = [2, 100, 100, 3] \<and>
          elem out [1, 45, 45, c] = (if color_scheme default_opts = ''white_on_black'' then 1 else 0)"
      by blast
    then show ?thesis by (simp only: cs if_False)
  qed
  from px [OF idx(3)] px [OF idx(4)] px [OF idx(5)]
  have three: "\<exists>out. add_label (sample_env []) ?img ''HI'' default_opts = Inr out \<and>
          shape out = [2, 100, 100, 3] \<and> elem out [1, 45, 45, 0] = 0 \<and>
          elem out [1, 45, 45, 1] = 0 \<and> elem out [1, 45, 45, 2] = 0"
    by auto
  from one two three show ?thesis by blast
qed

theorem drawn_box_size_witness:
  "\<exists>im. render (sample_env []) 10 ''HI'' example_opts
           (fst (scheme_colours (color_scheme example_opts)))
           (snd (scheme_colours (color_scheme example_opts))) (solid [100, 100, 3] (1 / 5)) = Inr im \<and>
     width im = 100 \<and> height im = 100 \<and>
     px im 0 20 = (153, 153, 153, 255) \<and> px im 32 20 = (153, 153, 153, 255) \<and>
     px im 33 20 = (51, 51, 51, 255) \<and>
     card {x. rounded_rectangle (sample_env []) (0, 0, 32, 29) 0 x 20} = 33 \<and>
     card {y. rounded_rectangle (sample_env []) (0, 0, 32, 29) 0 20 y} = 30"
proof -
  define g :: layout where "g = \<lparr> box_w = 32, box_h = 29, box_x = 0, box_y = 0, radius = 0,
       rect = (0, 0, 32, 29), text_x = 10, text_y = 8 \<rparr>"
  have sh: "shape (solid [100, 100, 3] (1 / 5)) = [100, 100, 3]" by (simp add: solid_def)
  have gl: "layout_of (sample_env []) 10 ''HI'' example_opts 100 100 = g"
    by (simp add: g_def sample_layout_example)
  have cs: "color_scheme example_opts \<noteq> ''white_on_black''" by (simp add: example_opts_def)
  from drawn_box_size [OF sh fills_box_sample sample_text_bbox gl]
  show ?thesis
  proof (elim exE conjE, goal_cases)
    case (1 im)
    have a: "px im 0 20 = (153, 153, 153, 255)"
      using 1(9) [rule_format, of 0 20] cs
      by (simp add: g_def sample_fields solid_def to_u8_fifth over_nearest_samples)
    have b: "px im 32 20 = (153, 153, 153, 255)"
      using 1(9) [rule_format, of 32 20] cs
      by (simp add: g_def sample_fields solid_def to_u8_fifth over_nearest_samples)
    have c: "px im 33 20 = (51, 51, 51, 255)"
      using 1(10) [rule_format, of 33 20] cs
      by (simp add: g_def sample_fields solid_def to_u8_fifth over_nearest_samples)
    have d: "card {x. rounded_rectangle (sample_env []) (0, 0, 32, 29) 0 x 20} = 33"
      using 1(7) [rule_format, of 20] by (simp add: g_def)
    have e: "card {y. rounded_rectangle (sample_env []) (0, 0, 32, 29) 0 20 y} = 30"
      using 1(8) [rule_format, of 20] by (simp add: g_def)
    from 1(1,2,3) a b c d e show ?case by blast
  qed
qed

text \<open>
  C3 as stated fails on the sample environment: the text measures 12 by 9 pixels and
  the padding is 10, so that the box should be 32 pixels wide and 29 high; in the
  returned image the columns 0 and 32 of row 20 and the rows 0 and 29 of column 20 all
  have the colour of the box, and column 33 and row 30 have the colour of the input:
  the drawn box is 33 pixels wide and 30 high.
\<close>

lemma sample_label_px:
  "label_px (sample_env []) 10 ''HI'' example_opts 100 100 (51, 51, 51, 255) x y =
     (if int x = 10 \<and> int y = 10 then (0, 0, 0, 255)
      else if int x \<le> 32 \<and> int y \<le> 29 then (153, 153, 153, 255) else (51, 51, 51, 255))"
  unfolding label_px_def sample_layout_example
  by (simp add: sample_fields Let_def example_opts_def over_nearest_samples)

theorem drawn_box_exceeds_text_plus_padding:
  "text_bbox (sample_env []) ''HI'' 10 = (0, 2, 12, 11) \<and> padding example_opts = 10 \<and>
   placement example_opts = ''top_left'' \<and> edge_offset example_opts = 0 \<and>
   load_font (sample_env []) (font_family example_opts) (font_size example_opts) = Inr 10 \<and>
   add_label (sample_env []) (solid [1, 100, 100, 3] (1 / 5)) ''HI'' example_opts =
     Inr (projr (add_label (sample_env []) (solid [1, 100, 100, 3] (1 / 5)) ''HI'' example_opts)) \<and>
   elem (projr (add_label (sample_env []) (solid [1, 100, 100, 3] (1 / 5)) ''HI'' example_opts))
     [0, 20, 0, 0] = 153 / 255 \<and>
   elem (projr (add_label (sample_env []) (solid [1, 100, 100, 3] (1 / 5)) ''HI'' example_opts))
     [0, 20, 32, 0] = 153 / 255 \<and>
   elem (projr (add_label (sample_env []) (solid [1, 100, 100, 3] (1 / 5)) ''HI'' example_opts))
     [0, 20, 33, 0] = 51 / 255 \<and>
   elem (projr (add_label (sample_env []) (solid [1, 100, 100, 3] (1 / 5)) ''HI'' example_opts))
     [0, 0, 20, 0] = 153 / 255 \<and>
   elem (projr (add_label (sample_env []) (solid [1, 100, 100, 3] (1 / 5)) ''HI'' example_opts))
     [0, 29, 20, 0] = 153 / 255 \<and>
   elem (projr (add_label (sample_env []) (solid [1, 100, 100, 3] (1 / 5)) ''HI'' example_opts))
     [0, 30, 20, 0] = 51 / 255"
proof -
  have sh: "shape (solid [1, 100, 100, 3] (1 / 5)) = [1, 100, 100, 3]" by (simp add: solid_def)
  have i: "(0 :: nat) < 1" by simp
  from add_label_px [OF sh i sample_load_example_opts, of "''HI''"] obtain out where
    out: "add_label (sample_env []) (solid [1, 100, 100, 3] (1 / 5)) ''HI'' example_opts = Inr out"
    and el: "\<And>y x c. elem out [0, y, x, c] =
              of_nat (unat (channel (label_px (sample_env []) 10 ''HI'' example_opts 100 100
                (to_u8 (elem (solid [1, 100, 100, 3] (1 / 5)) [0, y, x, 0]),
                 to_u8 (elem (solid [1, 100, 100, 3] (1 / 5)) [0, y, x, 1]),
                 to_u8 (elem (solid [1, 100, 100, 3] (1 / 5)) [0, y, x, 2]), 255) x y) c)) / 255"
    by blast
  have el': "elem out [0, y, x, 0] =
      of_nat (unat (channel (label_px (sample_env []) 10 ''HI'' example_opts 100 100
                (51, 51, 51, 255) x y) 0)) / 255" for x y
    unfolding el by (simp add: solid_def to_u8_fifth)
  have px: "elem out [0, 20, 0, 0] = 153 / 255" "elem out [0, 20, 32, 0] = 153 / 255"
    "elem out [0, 20, 33, 0] = 51 / 255" "elem out [0, 0, 20, 0] = 153 / 255"
    "elem out [0, 29, 20, 0] = 153 / 255" "elem out [0, 30, 20, 0] = 51 / 255"
    unfolding el' sample_label_px by (simp_all add: channel_def)
  have pr: "projr (add_label (sample_env []) (solid [1, 100, 100, 3] (1 / 5)) ''HI'' example_opts) = out"
    by (simp only: out sum.sel)
  have os: "padding example_opts = 10" "placement example_opts = ''top_left''"
    "edge_offset example_opts = 0"
    by (simp_all add: example_opts_def)
  show ?thesis
    unfolding pr
    by (intro conjI sample_text_bbox os sample_load_example_opts out px)
qed


theorem add_label_leaves_store_witness:
  "cells (snd (add_label_st (sample_env []) (0, Whole) ''HI'' default_opts sample_store)) 0 =
     Some (Tensor (solid [1, 4, 5, 3] (1 / 5))) \<and>
   (\<exists>p out. fst (add_label_st (sample_env []) (0, Whole) ''HI'' default_opts sample_store) = Inr p \<and>
      p \<noteq> 0 \<and>
      cells (snd (add_label_st (sample_env []) (0, Whole) ''HI'' default_opts sample_store)) p =
        Some (Tensor out) \<and>
      shape out = [1, 4, 5, 3])"
proof -
  let ?img = "solid [1, 4, 5, 3] (1 / 5)"
  let ?run = "add_label_st (sample_env []) (0, Whole) ''HI'' default_opts sample_store"
  have wf: "dom (cells sample_store) \<subseteq> {..<next_free sample_store}"
    by (simp add: sample_store_def)
  have inp: "deref sample_store (0, Whole) = Some ?img"
    by (simp add: deref_def sample_store_def)
  have run: "?run = (fst ?run, snd ?run)" by (rule surjective_pairing)
  have sh: "shape ?img = [1, 4, 5, 3]" by (simp add: solid_def)
  have pos: "(0 :: nat) < 1" by simp
  from add_label_ok [OF sh pos sample_load_default_opts, of "''HI''"] obtain out where
    out: "add_label (sample_env []) ?img ''HI'' default_opts = Inr out" "shape out = [1, 4, 5, 3]"
    by blast
  note th = add_label_leaves_store [OF wf inp run]
  have d0: "0 \<in> dom (cells sample_store)" by (simp add: sample_store_def)
  from th d0 have "cells (snd ?run) 0 = cells sample_store 0" by blast
  then have one: "cells (snd ?run) 0 = Some (Tensor ?img)" by (simp add: sample_store_def)
  from th out(1) have "\<forall>e. fst ?run \<noteq> Inl e" by simp
  then obtain p where p: "fst ?run = Inr p" by (cases "fst ?run") auto
  with th out(1) have "p \<notin> dom (cells sample_store)" "cells (snd ?run) p = Some (Tensor out)"
    by auto
  with d0 have "p \<noteq> 0" "cells (snd ?run) p = Some (Tensor out)" by auto
  with p out(2) one show ?thesis by blast
qed

end
